theory Spec2Isabelle
  imports Main "HOL-Library.Word"
begin

section \<open>Memory model\<close>

text \<open>
  The counters of the source are \<^verbatim>\<open>size_t\<close>: 64-bit unsigned words, on which
  \<^verbatim>\<open>++\<close> and \<^verbatim>\<open>--\<close> wrap around. A pointer is an optional address, \<open>None\<close> being
  \<^verbatim>\<open>nullptr\<close>. Control blocks and managed objects live in two stores; an address that
  is not in its store has been freed (or was never allocated), and reaching through it
  is reported as \<open>UseAfterFree\<close>. Reaching through \<^verbatim>\<open>nullptr\<close> is \<open>NullDeref\<close>.
\<close>

type_synonym size_t = "64 word"
type_synonym addr = nat
type_synonym ptr = "addr option"

datatype error = NullDeref | UseAfterFree | BadWeakPtr | IllTyped | DeadHandle

text \<open>
  \<^verbatim>\<open>SharedPtr<T>\<close> and \<^verbatim>\<open>WeakPtr<T>\<close> have the same two fields, \<^verbatim>\<open>base_block_\<close> and
  \<^verbatim>\<open>observed_ptr_\<close>.
\<close>

record handle =
  base_block :: ptr
  observed_ptr :: ptr

type_synonym SharedPtr = handle
type_synonym WeakPtr = handle

datatype block_kind = PtrControlBlock | ObjectControlBlock

text \<open>
  Both control block classes hold \<^verbatim>\<open>strong_counter_\<close>, \<^verbatim>\<open>weak_counter_\<close> and a pointer to
  the managed object (\<^verbatim>\<open>control_ptr_\<close> in \<^verbatim>\<open>PtrControlBlock\<close>, \<^verbatim>\<open>buffer_ptr_\<close> in
  \<^verbatim>\<open>ObjectControlBlock\<close>); \<open>kind\<close> is the dynamic type that the virtual calls dispatch on.
\<close>

record control_block =
  kind :: block_kind
  strong_counter :: size_t
  weak_counter :: size_t
  control_ptr :: ptr

text \<open>
  A managed object carries a payload (what dereferencing a handle reads) and, when its class
  derives from \<^verbatim>\<open>EnableSharedFromThis\<close>, the member \<^verbatim>\<open>weak_this_\<close>; \<open>weak_this = None\<close> is a
  class without the mixin.
\<close>

record obj =
  payload :: int
  weak_this :: "WeakPtr option"

datatype event = ObjectDeleted addr | ObjectDestructed addr | BlockDeleted addr

record heap =
  blocks :: "addr \<rightharpoonup> control_block"
  objects :: "addr \<rightharpoonup> obj"
  events :: "event list"
  next_block :: addr
  next_object :: addr

definition bindE :: "error + 'a \<Rightarrow> ('a \<Rightarrow> error + 'b) \<Rightarrow> error + 'b" where
  "bindE m f = (case m of Inl e \<Rightarrow> Inl e | Inr x \<Rightarrow> f x)"

definition null_handle :: handle where
  "null_handle = \<lparr>base_block = None, observed_ptr = None\<rparr>"

definition set_block :: "addr \<Rightarrow> control_block \<Rightarrow> heap \<Rightarrow> heap" where
  "set_block b cb s = s\<lparr>blocks := (blocks s)(b \<mapsto> cb)\<rparr>"

definition log_event :: "event \<Rightarrow> heap \<Rightarrow> heap" where
  "log_event ev s = s\<lparr>events := events s @ [ev]\<rparr>"

text \<open>The number of times the destructor of the object at \<open>a\<close> has run.\<close>

definition destroy_count :: "addr \<Rightarrow> event list \<Rightarrow> nat" where
  "destroy_count a evs =
     length (filter (\<lambda>ev. ev = ObjectDeleted a \<or> ev = ObjectDestructed a) evs)"

section \<open>Control blocks\<close>

text \<open>\<^verbatim>\<open>delete this\<close>: the block's destructor clears its fields and the memory is released.\<close>

definition delete_this :: "addr \<Rightarrow> heap \<Rightarrow> heap" where
  "delete_this b s = log_event (BlockDeleted b) (s\<lparr>blocks := (blocks s)(b := None)\<rparr>)"

definition IncreaseStrongCounter :: "addr \<Rightarrow> heap \<Rightarrow> error + heap" where
  "IncreaseStrongCounter b s =
     (case blocks s b of
        None \<Rightarrow> Inl UseAfterFree
      | Some cb \<Rightarrow> Inr (set_block b (cb\<lparr>strong_counter := strong_counter cb + 1\<rparr>) s))"

definition IncreaseWeakCounter :: "addr \<Rightarrow> heap \<Rightarrow> error + heap" where
  "IncreaseWeakCounter b s =
     (case blocks s b of
        None \<Rightarrow> Inl UseAfterFree
      | Some cb \<Rightarrow> Inr (set_block b (cb\<lparr>weak_counter := weak_counter cb + 1\<rparr>) s))"

definition DecreaseWeakCounter :: "addr \<Rightarrow> heap \<Rightarrow> error + heap" where
  "DecreaseWeakCounter b s =
     (case blocks s b of
        None \<Rightarrow> Inl UseAfterFree
      | Some cb \<Rightarrow>
          let cb' = cb\<lparr>weak_counter := weak_counter cb - 1\<rparr>;
              s' = set_block b cb' s
          in if weak_counter cb' = 0 \<and> strong_counter cb' = 0
             then Inr (delete_this b s') else Inr s')"

definition BruteDecreaseWeakCounter :: "addr \<Rightarrow> heap \<Rightarrow> error + heap" where
  "BruteDecreaseWeakCounter b s =
     (case blocks s b of
        None \<Rightarrow> Inl UseAfterFree
      | Some cb \<Rightarrow> Inr (set_block b (cb\<lparr>weak_counter := weak_counter cb - 1\<rparr>) s))"

definition GetStrongCounter :: "addr \<Rightarrow> heap \<Rightarrow> error + size_t" where
  "GetStrongCounter b s =
     (case blocks s b of None \<Rightarrow> Inl UseAfterFree | Some cb \<Rightarrow> Inr (strong_counter cb))"

text \<open>
  \<^verbatim>\<open>~WeakPtr\<close>. The handle itself ceases to exist, so only the heap is returned.
\<close>

definition WeakPtr_dtor :: "WeakPtr \<Rightarrow> heap \<Rightarrow> error + heap" where
  "WeakPtr_dtor w s =
     (case base_block w of None \<Rightarrow> Inr s | Some b \<Rightarrow> DecreaseWeakCounter b s)"

text \<open>
  \<^verbatim>\<open>~EnableSharedFromThis\<close>: calls \<^verbatim>\<open>BruteDecreaseWeakCounter\<close> through
  \<^verbatim>\<open>weak_this_.base_block_\<close> with no test for \<^verbatim>\<open>nullptr\<close>, then clears the two fields of
  \<^verbatim>\<open>weak_this_\<close>. The result is the cleared member and the heap.
\<close>

definition EnableSharedFromThis_dtor :: "WeakPtr \<Rightarrow> heap \<Rightarrow> error + (WeakPtr \<times> heap)" where
  "EnableSharedFromThis_dtor w s =
     (case base_block w of
        None \<Rightarrow> Inl NullDeref
      | Some b \<Rightarrow> bindE (BruteDecreaseWeakCounter b s) (\<lambda>s'. Inr (null_handle, s')))"

text \<open>
  The destructor of the managed object at address \<open>a\<close>: for a class with the mixin the body
  of \<^verbatim>\<open>~EnableSharedFromThis\<close> runs, then the destructor of the member \<^verbatim>\<open>weak_this_\<close>;
  afterwards the object no longer exists.
\<close>

definition destroy_T :: "addr \<Rightarrow> heap \<Rightarrow> error + heap" where
  "destroy_T a s =
     (case objects s a of
        None \<Rightarrow> Inl UseAfterFree
      | Some ob \<Rightarrow>
          bindE (case weak_this ob of
                   None \<Rightarrow> Inr s
                 | Some w \<Rightarrow>
                     bindE (EnableSharedFromThis_dtor w s) (\<lambda>(w', s'). WeakPtr_dtor w' s'))
            (\<lambda>s'. Inr (s'\<lparr>objects := (objects s')(a := None)\<rparr>)))"

text \<open>
  What each block class does with its object when the strong counter reaches zero:
  \<^verbatim>\<open>delete control_ptr_\<close> (a no-op on \<^verbatim>\<open>nullptr\<close>) in \<^verbatim>\<open>PtrControlBlock\<close>, the explicit
  destructor call \<^verbatim>\<open>buffer_ptr_->~T()\<close> in \<^verbatim>\<open>ObjectControlBlock\<close>.
\<close>

definition release_object :: "block_kind \<Rightarrow> ptr \<Rightarrow> heap \<Rightarrow> error + heap" where
  "release_object k p s =
     (case k of
        PtrControlBlock \<Rightarrow>
          (case p of
             None \<Rightarrow> Inr s
           | Some a \<Rightarrow> bindE (destroy_T a s) (\<lambda>s'. Inr (log_event (ObjectDeleted a) s')))
      | ObjectControlBlock \<Rightarrow>
          (case p of
             None \<Rightarrow> Inl NullDeref
           | Some a \<Rightarrow> bindE (destroy_T a s) (\<lambda>s'. Inr (log_event (ObjectDestructed a) s'))))"

definition DecreaseStrongCounter :: "addr \<Rightarrow> heap \<Rightarrow> error + heap" where
  "DecreaseStrongCounter b s =
     (case blocks s b of
        None \<Rightarrow> Inl UseAfterFree
      | Some cb \<Rightarrow>
          let cb' = cb\<lparr>strong_counter := strong_counter cb - 1\<rparr>;
              s1 = set_block b cb' s
          in if strong_counter cb' = 0
             then bindE (release_object (kind cb') (control_ptr cb') s1)
                    (\<lambda>s2. case blocks s2 b of
                             None \<Rightarrow> Inl UseAfterFree
                           | Some cb2 \<Rightarrow>
                               let s3 = set_block b (cb2\<lparr>control_ptr := None\<rparr>) s2
                               in if weak_counter cb2 = 0
                                  then Inr (delete_this b s3) else Inr s3)
             else Inr s1)"

section \<open>Intrusive reference counting\<close>

text \<open>
  \<^verbatim>\<open>SimpleCounter\<close> is one \<^verbatim>\<open>size_t\<close>; each method returns the new counter and the value
  it returns in the source.
\<close>

type_synonym SimpleCounter = size_t

definition SimpleCounter_IncRef :: "SimpleCounter \<Rightarrow> SimpleCounter \<times> size_t" where
  "SimpleCounter_IncRef c = (c + 1, c + 1)"

definition SimpleCounter_DecRef :: "SimpleCounter \<Rightarrow> SimpleCounter \<times> size_t" where
  "SimpleCounter_DecRef c = (c - 1, c - 1)"

definition SimpleCounter_RefCount :: "SimpleCounter \<Rightarrow> size_t" where
  "SimpleCounter_RefCount c = c"

text \<open>
  A \<^verbatim>\<open>RefCounted\<close> object: its counter, and how many times \<^verbatim>\<open>Deleter::Destroy\<close> has been
  called on it.
\<close>

record RefCounted =
  counter :: SimpleCounter
  destroy_calls :: nat

definition Destroy :: "RefCounted \<Rightarrow> RefCounted" where
  "Destroy r = r\<lparr>destroy_calls := destroy_calls r + 1\<rparr>"

definition RefCount :: "RefCounted \<Rightarrow> size_t" where
  "RefCount r = SimpleCounter_RefCount (counter r)"

definition IncRef :: "RefCounted \<Rightarrow> RefCounted" where
  "IncRef r = r\<lparr>counter := fst (SimpleCounter_IncRef (counter r))\<rparr>"

definition DecRef :: "RefCounted \<Rightarrow> RefCounted" where
  "DecRef r =
     (if RefCount r = 0 then Destroy r
      else let r' = r\<lparr>counter := fst (SimpleCounter_DecRef (counter r))\<rparr>
           in if RefCount r' = 0 then Destroy r' else r')"

section \<open>Weak handles\<close>

definition WeakPtr_default :: WeakPtr where
  "WeakPtr_default = null_handle"

text \<open>
  \<^verbatim>\<open>WeakPtr(const WeakPtr&)\<close> and \<^verbatim>\<open>WeakPtr(const SharedPtr<T>&)\<close> have the same body.
\<close>

definition WeakPtr_copy :: "handle \<Rightarrow> heap \<Rightarrow> error + (WeakPtr \<times> heap)" where
  "WeakPtr_copy other s =
     (let this = \<lparr>base_block = base_block other, observed_ptr = observed_ptr other\<rparr>
      in case base_block this of
           None \<Rightarrow> Inr (this, s)
         | Some b \<Rightarrow> bindE (IncreaseWeakCounter b s) (\<lambda>s'. Inr (this, s')))"

text \<open>\<^verbatim>\<open>WeakPtr(WeakPtr&&)\<close>: the new handle and the moved-from one.\<close>

definition WeakPtr_move :: "WeakPtr \<Rightarrow> WeakPtr \<times> WeakPtr" where
  "WeakPtr_move other =
     (\<lparr>base_block = base_block other, observed_ptr = observed_ptr other\<rparr>, null_handle)"

text \<open>
  \<^verbatim>\<open>WeakPtr& operator=(WeakPtr&&)\<close> between two distinct objects (\<^verbatim>\<open>this != &other\<close>):
  the assigned handle, the moved-from one and the heap.
\<close>

definition WeakPtr_move_assign ::
  "WeakPtr \<Rightarrow> WeakPtr \<Rightarrow> heap \<Rightarrow> error + (WeakPtr \<times> WeakPtr \<times> heap)" where
  "WeakPtr_move_assign this other s =
     bindE (case base_block this of None \<Rightarrow> Inr s | Some b \<Rightarrow> DecreaseWeakCounter b s)
       (\<lambda>s'. Inr (\<lparr>base_block = base_block other, observed_ptr = observed_ptr other\<rparr>,
                   null_handle, s'))"

definition WeakPtr_Reset :: "WeakPtr \<Rightarrow> heap \<Rightarrow> error + (WeakPtr \<times> heap)" where
  "WeakPtr_Reset this s =
     bindE (case base_block this of None \<Rightarrow> Inr s | Some b \<Rightarrow> DecreaseWeakCounter b s)
       (\<lambda>s'. Inr (null_handle, s'))"

definition UseCount :: "handle \<Rightarrow> heap \<Rightarrow> error + size_t" where
  "UseCount this s =
     (case base_block this of None \<Rightarrow> Inr 0 | Some b \<Rightarrow> GetStrongCounter b s)"

definition Expired :: "WeakPtr \<Rightarrow> heap \<Rightarrow> error + bool" where
  "Expired this s = bindE (UseCount this s) (\<lambda>n. Inr (n = 0))"

section \<open>Strong handles\<close>

definition SharedPtr_default :: SharedPtr where
  "SharedPtr_default = \<lparr>base_block = None, observed_ptr = None\<rparr>"

definition SharedPtr_nullptr :: SharedPtr where
  "SharedPtr_nullptr = \<lparr>base_block = None, observed_ptr = None\<rparr>"

text \<open>
  \<^verbatim>\<open>InitWeakThis(e)\<close>, that is \<^verbatim>\<open>e->weak_this_ = WeakPtr(*this)\<close>: the temporary is built from
  the strong handle, move-assigned into the member of the object at \<open>e\<close>, and destroyed.
\<close>

definition InitWeakThis :: "SharedPtr \<Rightarrow> ptr \<Rightarrow> heap \<Rightarrow> error + heap" where
  "InitWeakThis this e s =
     bindE (WeakPtr_copy this s) (\<lambda>(tmp, s1).
       case e of
         None \<Rightarrow> Inl NullDeref
       | Some a \<Rightarrow>
           (case objects s1 a of
              None \<Rightarrow> Inl UseAfterFree
            | Some ob \<Rightarrow>
                (case weak_this ob of
                   None \<Rightarrow> Inl IllTyped
                 | Some w \<Rightarrow>
                     bindE (WeakPtr_move_assign w tmp s1) (\<lambda>(w', tmp', s2).
                       bindE (WeakPtr_dtor tmp' s2) (\<lambda>s3.
                         Inr (s3\<lparr>objects := (objects s3)(a \<mapsto> ob\<lparr>weak_this := Some w'\<rparr>)\<rparr>))))))"

text \<open>
  In every constructor the flag \<open>esft\<close> is the compile-time constant
  \<^verbatim>\<open>std::is_convertible_v<Y*, EnableSharedFromThisBase*>\<close> of the instantiation. An object
  reached through a pointer of such a type has the member \<^verbatim>\<open>weak_this_\<close>; a state where it
  has not cannot arise from a well-typed program and is reported as \<open>IllTyped\<close>.
\<close>

definition new_block :: "control_block \<Rightarrow> heap \<Rightarrow> addr \<times> heap" where
  "new_block cb s =
     (next_block s, s\<lparr>blocks := (blocks s)(next_block s \<mapsto> cb), next_block := next_block s + 1\<rparr>)"

text \<open>\<^verbatim>\<open>explicit SharedPtr(Y* ptr)\<close>.\<close>

definition SharedPtr_raw :: "bool \<Rightarrow> ptr \<Rightarrow> heap \<Rightarrow> error + (SharedPtr \<times> heap)" where
  "SharedPtr_raw esft p s =
     (let (b, s1) = new_block \<lparr>kind = PtrControlBlock, strong_counter = 1, weak_counter = 0,
                               control_ptr = p\<rparr> s;
          this = \<lparr>base_block = Some b, observed_ptr = p\<rparr>
      in if esft then bindE (InitWeakThis this (observed_ptr this) s1) (\<lambda>s2. Inr (this, s2))
         else Inr (this, s1))"

text \<open>\<^verbatim>\<open>SharedPtr(const SharedPtr&)\<close> and its template form.\<close>

definition SharedPtr_copy :: "bool \<Rightarrow> SharedPtr \<Rightarrow> heap \<Rightarrow> error + (SharedPtr \<times> heap)" where
  "SharedPtr_copy esft other s =
     (let this = \<lparr>base_block = base_block other, observed_ptr = observed_ptr other\<rparr>
      in bindE (case base_block this of None \<Rightarrow> Inr s | Some b \<Rightarrow> IncreaseStrongCounter b s)
           (\<lambda>s1. if esft
                  then bindE (InitWeakThis this (observed_ptr this) s1) (\<lambda>s2. Inr (this, s2))
                  else Inr (this, s1)))"

text \<open>
  \<^verbatim>\<open>SharedPtr(SharedPtr&&)\<close> and its template form: the new handle, the moved-from one and
  the heap.
\<close>

definition SharedPtr_move ::
  "bool \<Rightarrow> SharedPtr \<Rightarrow> heap \<Rightarrow> error + (SharedPtr \<times> SharedPtr \<times> heap)" where
  "SharedPtr_move esft other s =
     (let this = \<lparr>base_block = base_block other, observed_ptr = observed_ptr other\<rparr>;
          other' = other\<lparr>base_block := None, observed_ptr := None\<rparr>
      in if esft
         then bindE (InitWeakThis this (observed_ptr this) s) (\<lambda>s1. Inr (this, other', s1))
         else Inr (this, other', s))"

text \<open>The aliasing constructor \<^verbatim>\<open>SharedPtr(const SharedPtr<Y>& other, T* ptr)\<close>.\<close>

definition SharedPtr_alias ::
  "bool \<Rightarrow> SharedPtr \<Rightarrow> ptr \<Rightarrow> heap \<Rightarrow> error + (SharedPtr \<times> heap)" where
  "SharedPtr_alias esft other p s =
     bindE (case base_block other of None \<Rightarrow> Inr s | Some b \<Rightarrow> IncreaseStrongCounter b s)
       (\<lambda>s1. let this = \<lparr>base_block = base_block other, observed_ptr = p\<rparr>
              in if esft
                 then bindE (InitWeakThis this (observed_ptr this) s1) (\<lambda>s2. Inr (this, s2))
                 else Inr (this, s1))"

text \<open>\<^verbatim>\<open>explicit SharedPtr(const WeakPtr<T>& other)\<close>; the exception is \<open>Inl BadWeakPtr\<close>.\<close>

definition SharedPtr_from_weak :: "WeakPtr \<Rightarrow> heap \<Rightarrow> error + (SharedPtr \<times> heap)" where
  "SharedPtr_from_weak other s =
     bindE (Expired other s) (\<lambda>expired.
       if expired then Inl BadWeakPtr
       else let this = \<lparr>base_block = base_block other, observed_ptr = observed_ptr other\<rparr>
            in bindE (case base_block this of
                        None \<Rightarrow> Inr s
                      | Some b \<Rightarrow> IncreaseStrongCounter b s)
                 (\<lambda>s'. Inr (this, s')))"

text \<open>
  The assignment operators. \<open>same\<close> is the outcome of the test \<^verbatim>\<open>this != &other\<close> being
  false; the template forms have no such test and are the case \<open>same = False\<close>.
\<close>

definition SharedPtr_copy_assign ::
  "bool \<Rightarrow> SharedPtr \<Rightarrow> SharedPtr \<Rightarrow> heap \<Rightarrow> error + (SharedPtr \<times> heap)" where
  "SharedPtr_copy_assign same this other s =
     (if same then Inr (this, s)
      else bindE (case base_block this of None \<Rightarrow> Inr s | Some b \<Rightarrow> DecreaseStrongCounter b s)
             (\<lambda>s1. bindE (case base_block other of
                             None \<Rightarrow> Inr s1
                           | Some b \<Rightarrow> IncreaseStrongCounter b s1)
                      (\<lambda>s2. Inr (\<lparr>base_block = base_block other,
                                   observed_ptr = observed_ptr other\<rparr>, s2))))"

definition SharedPtr_move_assign ::
  "bool \<Rightarrow> SharedPtr \<Rightarrow> SharedPtr \<Rightarrow> heap \<Rightarrow> error + (SharedPtr \<times> SharedPtr \<times> heap)" where
  "SharedPtr_move_assign same this other s =
     (if same then Inr (this, other, s)
      else bindE (case base_block this of None \<Rightarrow> Inr s | Some b \<Rightarrow> DecreaseStrongCounter b s)
             (\<lambda>s1. Inr (\<lparr>base_block = base_block other, observed_ptr = observed_ptr other\<rparr>,
                         other\<lparr>base_block := None, observed_ptr := None\<rparr>, s1)))"

text \<open>\<^verbatim>\<open>~SharedPtr\<close>: only the heap is left.\<close>

definition SharedPtr_dtor :: "SharedPtr \<Rightarrow> heap \<Rightarrow> error + heap" where
  "SharedPtr_dtor this s =
     (case base_block this of None \<Rightarrow> Inr s | Some b \<Rightarrow> DecreaseStrongCounter b s)"

definition Reset :: "SharedPtr \<Rightarrow> heap \<Rightarrow> error + (SharedPtr \<times> heap)" where
  "Reset this s =
     bindE (case base_block this of None \<Rightarrow> Inr s | Some b \<Rightarrow> DecreaseStrongCounter b s)
       (\<lambda>s'. Inr (this\<lparr>base_block := None, observed_ptr := None\<rparr>, s'))"

text \<open>\<^verbatim>\<open>Reset(Y* ptr)\<close>; it does not call \<^verbatim>\<open>InitWeakThis\<close>.\<close>

definition Reset_ptr :: "SharedPtr \<Rightarrow> ptr \<Rightarrow> heap \<Rightarrow> error + (SharedPtr \<times> heap)" where
  "Reset_ptr this p s =
     bindE (case base_block this of None \<Rightarrow> Inr s | Some b \<Rightarrow> DecreaseStrongCounter b s)
       (\<lambda>s1. let (b, s2) = new_block \<lparr>kind = PtrControlBlock, strong_counter = 1,
                                      weak_counter = 0, control_ptr = p\<rparr> s1
              in Inr (this\<lparr>base_block := Some b, observed_ptr := p\<rparr>, s2))"

definition Swap :: "handle \<Rightarrow> handle \<Rightarrow> handle \<times> handle" where
  "Swap this other =
     (this\<lparr>base_block := base_block other, observed_ptr := observed_ptr other\<rparr>,
      other\<lparr>base_block := base_block this, observed_ptr := observed_ptr this\<rparr>)"

definition Get :: "SharedPtr \<Rightarrow> ptr" where
  "Get this = observed_ptr this"

text \<open>\<^verbatim>\<open>operator*\<close>, reading the payload of the observed object.\<close>

definition deref :: "SharedPtr \<Rightarrow> heap \<Rightarrow> error + int" where
  "deref this s =
     (case observed_ptr this of
        None \<Rightarrow> Inl NullDeref
      | Some a \<Rightarrow> (case objects s a of None \<Rightarrow> Inl UseAfterFree | Some ob \<Rightarrow> Inr (payload ob)))"

definition operator_bool :: "SharedPtr \<Rightarrow> bool" where
  "operator_bool this = (observed_ptr this \<noteq> None)"

text \<open>
  \<^verbatim>\<open>new T(args...)\<close>: a fresh object with the given payload; a class with the mixin starts
  with a default-constructed \<^verbatim>\<open>weak_this_\<close>.
\<close>

definition construct_T :: "bool \<Rightarrow> int \<Rightarrow> obj" where
  "construct_T esft v = \<lparr>payload = v, weak_this = (if esft then Some WeakPtr_default else None)\<rparr>"

definition new_T :: "bool \<Rightarrow> int \<Rightarrow> heap \<Rightarrow> ptr \<times> heap" where
  "new_T esft v s =
     (Some (next_object s),
      s\<lparr>objects := (objects s)(next_object s \<mapsto> construct_T esft v),
        next_object := next_object s + 1\<rparr>)"

text \<open>
  \<^verbatim>\<open>MakeShared<T>(args...)\<close>: the constructor of \<^verbatim>\<open>ObjectControlBlock\<close> sets the counters and
  builds the object in its buffer; the handle is then pointed at both. The local
  \<^verbatim>\<open>return_ptr\<close> is the returned object (copy elision).
\<close>

definition MakeShared :: "bool \<Rightarrow> int \<Rightarrow> heap \<Rightarrow> error + (SharedPtr \<times> heap)" where
  "MakeShared esft v s =
     (let return_ptr = SharedPtr_default;
          (buffer_ptr, s1) = new_T esft v s;
          (b, s2) = new_block \<lparr>kind = ObjectControlBlock, strong_counter = 1, weak_counter = 0,
                               control_ptr = buffer_ptr\<rparr> s1;
          return_ptr = return_ptr\<lparr>observed_ptr := buffer_ptr\<rparr>;
          return_ptr = return_ptr\<lparr>base_block := Some b\<rparr>
      in if esft then bindE (InitWeakThis return_ptr buffer_ptr s2) (\<lambda>s3. Inr (return_ptr, s3))
         else Inr (return_ptr, s2))"

text \<open>
  \<^verbatim>\<open>WeakPtr::Lock\<close>. The branch for an expired handle returns a temporary, which is the
  returned object. The other branch returns the named local \<^verbatim>\<open>return_ptr\<close>; the function has
  two return statements with different operands, so the local is not built in place of the
  returned object (g++ elides the copy of a named local only when every return statement
  names it): the result is move-constructed from \<^verbatim>\<open>return_ptr\<close>, and the moved-from local is
  destroyed. The move constructor of a handle type with the mixin calls \<^verbatim>\<open>InitWeakThis\<close>, so
  \<^verbatim>\<open>Lock\<close> takes the flag \<open>esft\<close> of \<^verbatim>\<open>SharedPtr<T>\<close>.
\<close>

definition Lock :: "bool \<Rightarrow> WeakPtr \<Rightarrow> heap \<Rightarrow> error + (SharedPtr \<times> heap)" where
  "Lock esft this s =
     bindE (Expired this s) (\<lambda>expired.
       if expired then Inr (SharedPtr_default, s)
       else let return_ptr = SharedPtr_default
            in case base_block this of
                 None \<Rightarrow> Inl NullDeref
               | Some b \<Rightarrow>
                   bindE (IncreaseStrongCounter b s) (\<lambda>s1.
                     let return_ptr = return_ptr\<lparr>base_block := base_block this\<rparr>;
                         return_ptr = return_ptr\<lparr>observed_ptr := observed_ptr this\<rparr>
                     in bindE (SharedPtr_move esft return_ptr s1) (\<lambda>(result, return_ptr', s2).
                          bindE (SharedPtr_dtor return_ptr' s2) (\<lambda>s3. Inr (result, s3)))))"

section \<open>Self-observation\<close>

text \<open>
  The member functions of \<^verbatim>\<open>EnableSharedFromThis\<close>, called on the object at address \<open>a\<close>.
\<close>

definition SharedFromThis :: "addr \<Rightarrow> heap \<Rightarrow> error + (SharedPtr \<times> heap)" where
  "SharedFromThis a s =
     (case objects s a of
        None \<Rightarrow> Inl UseAfterFree
      | Some ob \<Rightarrow> (case weak_this ob of None \<Rightarrow> Inl IllTyped | Some w \<Rightarrow> Lock True w s))"

definition WeakFromThis :: "addr \<Rightarrow> heap \<Rightarrow> error + (WeakPtr \<times> heap)" where
  "WeakFromThis a s =
     (case objects s a of
        None \<Rightarrow> Inl UseAfterFree
      | Some ob \<Rightarrow> (case weak_this ob of None \<Rightarrow> Inl IllTyped | Some w \<Rightarrow> WeakPtr_copy w s))"

text \<open>
  \<^verbatim>\<open>delete p\<close> on a pointer to an object that no handle manages, as client code may write
  it; the end of a local object's scope runs the same destructor.
\<close>

definition delete_T :: "ptr \<Rightarrow> heap \<Rightarrow> error + heap" where
  "delete_T p s =
     (case p of
        None \<Rightarrow> Inr s
      | Some a \<Rightarrow> bindE (destroy_T a s) (\<lambda>s'. Inr (log_event (ObjectDeleted a) s')))"

section \<open>Programs over a group of strong handles\<close>

text \<open>
  A program state is the list of handle variables declared so far (\<open>None\<close> once a variable has
  been destroyed) and the heap. Each operation names the variable it acts on; the copy, move
  and aliasing constructors declare a new variable at the end of the list;
  \<open>CopyAssign i j\<close> is \<^verbatim>\<open>xi = xj\<close> and \<open>MoveAssign i j\<close> is \<^verbatim>\<open>xi = std::move(xj)\<close>, where
  \<^verbatim>\<open>this == &other\<close> exactly if \<open>i = j\<close>. Acting on a destroyed variable is not a program:
  \<open>DeadHandle\<close>.
\<close>

datatype op =
    Copy nat | Move nat | Alias nat ptr | CopyAssign nat nat | MoveAssign nat nat
  | ResetOp nat | Destroy nat

type_synonym prog_state = "SharedPtr option list \<times> heap"

definition slot :: "SharedPtr option list \<Rightarrow> nat \<Rightarrow> error + SharedPtr" where
  "slot hs i =
     (if i < length hs then (case hs ! i of None \<Rightarrow> Inl DeadHandle | Some h \<Rightarrow> Inr h)
      else Inl DeadHandle)"

fun step :: "bool \<Rightarrow> op \<Rightarrow> prog_state \<Rightarrow> error + prog_state" where
  "step esft (Copy i) (hs, s) =
     bindE (slot hs i) (\<lambda>h.
       bindE (SharedPtr_copy esft h s) (\<lambda>(h', s'). Inr (hs @ [Some h'], s')))"
| "step esft (Move i) (hs, s) =
     bindE (slot hs i) (\<lambda>h.
       bindE (SharedPtr_move esft h s) (\<lambda>(h', other', s').
         Inr (hs[i := Some other'] @ [Some h'], s')))"
| "step esft (Alias i p) (hs, s) =
     bindE (slot hs i) (\<lambda>h.
       bindE (SharedPtr_alias esft h p s) (\<lambda>(h', s'). Inr (hs @ [Some h'], s')))"
| "step esft (CopyAssign i j) (hs, s) =
     bindE (slot hs i) (\<lambda>this.
       bindE (slot hs j) (\<lambda>other.
         bindE (SharedPtr_copy_assign (i = j) this other s) (\<lambda>(this', s').
           Inr (hs[i := Some this'], s'))))"
| "step esft (MoveAssign i j) (hs, s) =
     bindE (slot hs i) (\<lambda>this.
       bindE (slot hs j) (\<lambda>other.
         bindE (SharedPtr_move_assign (i = j) this other s) (\<lambda>(this', other', s').
           Inr (hs[j := Some other', i := Some this'], s'))))"
| "step esft (ResetOp i) (hs, s) =
     bindE (slot hs i) (\<lambda>h.
       bindE (Reset h s) (\<lambda>(h', s'). Inr (hs[i := Some h'], s')))"
| "step esft (Destroy i) (hs, s) =
     bindE (slot hs i) (\<lambda>h.
       bindE (SharedPtr_dtor h s) (\<lambda>s'. Inr (hs[i := None], s')))"

fun run :: "bool \<Rightarrow> op list \<Rightarrow> prog_state \<Rightarrow> error + prog_state" where
  "run esft [] st = Inr st"
| "run esft (x # xs) st = bindE (step esft x st) (run esft xs)"

definition empty_heap :: heap where
  "empty_heap = \<lparr>blocks = Map.empty, objects = Map.empty, events = [], next_block = 0,
                 next_object = 0\<rparr>"

text \<open>
  The state right after each of the two ways of building the first handle of a group around
  a new object with payload \<open>v\<close>: \<^verbatim>\<open>SharedPtr<T>(new T(v))\<close> and \<^verbatim>\<open>MakeShared<T>(v)\<close>.
\<close>

definition init_raw :: "bool \<Rightarrow> int \<Rightarrow> heap \<Rightarrow> error + prog_state" where
  "init_raw esft v s =
     (let (p, s1) = new_T esft v s
      in bindE (SharedPtr_raw esft p s1) (\<lambda>(h, s2). Inr ([Some h], s2)))"

definition init_make :: "bool \<Rightarrow> int \<Rightarrow> heap \<Rightarrow> error + prog_state" where
  "init_make esft v s = bindE (MakeShared esft v s) (\<lambda>(h, s1). Inr ([Some h], s1))"

section \<open>Notions used in the statements\<close>

text \<open>The event that records the end of the object at \<open>a\<close>, per block class.\<close>

definition release_event :: "block_kind \<Rightarrow> addr \<Rightarrow> event" where
  "release_event k a =
     (case k of PtrControlBlock \<Rightarrow> ObjectDeleted a | ObjectControlBlock \<Rightarrow> ObjectDestructed a)"

text \<open>The number of live handle variables whose control-block reference is \<open>b\<close>.\<close>

definition refs :: "addr \<Rightarrow> SharedPtr option list \<Rightarrow> nat" where
  "refs b hs =
     length (filter (\<lambda>x. case x of None \<Rightarrow> False | Some h \<Rightarrow> base_block h = Some b) hs)"

text \<open>
  A group of strong handles around the block at \<open>b\<close> that manages the object at \<open>a\<close>.
  A handle belongs to the group when it is empty or refers to \<open>b\<close>; where the handle type
  has the mixin (\<open>esft\<close>), a non-empty handle observes \<open>a\<close> itself and an empty one observes
  nothing.
\<close>

definition in_group :: "bool \<Rightarrow> addr \<Rightarrow> addr \<Rightarrow> SharedPtr \<Rightarrow> bool" where
  "in_group esft b a h =
     ((base_block h = None \<and> (esft \<longrightarrow> observed_ptr h = None)) \<or>
      (base_block h = Some b \<and> (esft \<longrightarrow> observed_ptr h = Some a)))"

text \<open>
  The heap of a group with \<open>n\<close> handles referring to \<open>b\<close>. While \<open>n > 0\<close> the block's strong
  counter is \<open>n\<close>, the block still points at the object, the object exists and its
  destructor has not run; an object with the mixin has its \<^verbatim>\<open>weak_this_\<close> bound to \<open>b\<close>, and
  a handle type with the mixin comes with such an object. When \<open>n = 0\<close> the object is gone
  and its destructor has run exactly once.
\<close>

definition group_heap :: "bool \<Rightarrow> addr \<Rightarrow> addr \<Rightarrow> nat \<Rightarrow> heap \<Rightarrow> bool" where
  "group_heap esft b a n s =
     (if n = 0 then objects s a = None \<and> destroy_count a (events s) = 1
      else (case blocks s b of
              None \<Rightarrow> False
            | Some cb \<Rightarrow>
                unat (strong_counter cb) = n \<and> control_ptr cb = Some a \<and>
                (case objects s a of
                   None \<Rightarrow> False
                 | Some ob \<Rightarrow>
                     (case weak_this ob of
                        None \<Rightarrow> \<not> esft
                      | Some w \<Rightarrow> base_block w = Some b) \<and>
                     destroy_count a (events s) = 0)))"

definition handle_group :: "bool \<Rightarrow> addr \<Rightarrow> addr \<Rightarrow> prog_state \<Rightarrow> bool" where
  "handle_group esft b a st =
     (case st of (hs, s) \<Rightarrow>
        (\<forall>x \<in> set hs. case x of None \<Rightarrow> True | Some h \<Rightarrow> in_group esft b a h) \<and>
        group_heap esft b a (refs b hs) s)"

text \<open>
  Programs of a client that uses the group as the handles allow: every operation names a
  live variable; with the mixin, the copy and move constructors are applied to non-empty
  handles (on an empty one they call \<^verbatim>\<open>InitWeakThis(nullptr)\<close>), and the aliasing constructor,
  which would rebind the \<^verbatim>\<open>weak_this_\<close> of another object, is left out. Nothing is asked of
  the operations after a failing step; the theorems show that no step of such a program
  fails.
\<close>

fun op_ok :: "bool \<Rightarrow> op \<Rightarrow> SharedPtr option list \<Rightarrow> bool" where
  "op_ok esft (Copy i) hs =
     (case slot hs i of Inl e \<Rightarrow> False | Inr h \<Rightarrow> \<not> esft \<or> base_block h \<noteq> None)"
| "op_ok esft (Move i) hs =
     (case slot hs i of Inl e \<Rightarrow> False | Inr h \<Rightarrow> \<not> esft \<or> base_block h \<noteq> None)"
| "op_ok esft (Alias i p) hs = (case slot hs i of Inl e \<Rightarrow> False | Inr h \<Rightarrow> \<not> esft)"
| "op_ok esft (CopyAssign i j) hs =
     (case slot hs i of
        Inl e \<Rightarrow> False
      | Inr h \<Rightarrow> (case slot hs j of Inl e \<Rightarrow> False | Inr h' \<Rightarrow> True))"
| "op_ok esft (MoveAssign i j) hs =
     (case slot hs i of
        Inl e \<Rightarrow> False
      | Inr h \<Rightarrow> (case slot hs j of Inl e \<Rightarrow> False | Inr h' \<Rightarrow> True))"
| "op_ok esft (ResetOp i) hs = (case slot hs i of Inl e \<Rightarrow> False | Inr h \<Rightarrow> True)"
| "op_ok esft (Destroy i) hs = (case slot hs i of Inl e \<Rightarrow> False | Inr h \<Rightarrow> True)"

fun prog_ok :: "bool \<Rightarrow> op list \<Rightarrow> prog_state \<Rightarrow> bool" where
  "prog_ok esft [] st = True"
| "prog_ok esft (x # xs) st =
     (op_ok esft x (fst st) \<and>
      (case step esft x st of Inl e \<Rightarrow> True | Inr st' \<Rightarrow> prog_ok esft xs st'))"

text \<open>
  What a client can observe of a program state: for each live variable its \<^verbatim>\<open>UseCount()\<close>,
  the value read through \<^verbatim>\<open>operator*\<close> and its boolean test, and how many times the
  destructor of the object at \<open>a\<close> has run.
\<close>

definition observe ::
  "addr \<Rightarrow> prog_state \<Rightarrow> ((error + size_t) \<times> (error + int) \<times> bool) option list \<times> nat" where
  "observe a st =
     (case st of (hs, s) \<Rightarrow>
        (map (map_option (\<lambda>h. (UseCount h s, deref h s, operator_bool h))) hs,
         destroy_count a (events s)))"

text \<open>
  The empty-state property of a strong handle: a null control-block reference comes with a
  null observed pointer.
\<close>

definition empty_state_inv :: "SharedPtr \<Rightarrow> bool" where
  "empty_state_inv h = (base_block h = None \<longrightarrow> observed_ptr h = None)"

text \<open>
  A small heap for evaluating the operations: one \<^verbatim>\<open>PtrControlBlock\<close> at address 0 with the
  given counters, managing the object at address 0; with \<open>esft\<close> the object's class has the
  mixin and its \<^verbatim>\<open>weak_this_\<close> is bound to the block.
\<close>

definition demo_heap :: "size_t \<Rightarrow> size_t \<Rightarrow> bool \<Rightarrow> heap" where
  "demo_heap n m esft =
     \<lparr>blocks = [0 \<mapsto> \<lparr>kind = PtrControlBlock, strong_counter = n, weak_counter = m,
                      control_ptr = Some 0\<rparr>],
      objects = [0 \<mapsto> \<lparr>payload = 5,
                       weak_this = (if esft then Some \<lparr>base_block = Some 0, observed_ptr = Some 0\<rparr>
                                    else None)\<rparr>],
      events = [], next_block = 1, next_object = 1\<rparr>"

section \<open>Basic facts\<close>

lemma bindE_Inr [simp]: "bindE (Inr x) f = f x"
  by (simp add: bindE_def)

lemma bindE_Inl [simp]: "bindE (Inl e) f = Inl e"
  by (simp add: bindE_def)

lemma blocks_set_block [simp]: "blocks (set_block b cb s) = (blocks s)(b \<mapsto> cb)"
  by (simp add: set_block_def)

lemma objects_set_block [simp]: "objects (set_block b cb s) = objects s"
  by (simp add: set_block_def)

lemma events_set_block [simp]: "events (set_block b cb s) = events s"
  by (simp add: set_block_def)

lemma next_block_set_block [simp]: "next_block (set_block b cb s) = next_block s"
  by (simp add: set_block_def)

lemma next_object_set_block [simp]: "next_object (set_block b cb s) = next_object s"
  by (simp add: set_block_def)

lemma blocks_log_event [simp]: "blocks (log_event ev s) = blocks s"
  by (simp add: log_event_def)

lemma objects_log_event [simp]: "objects (log_event ev s) = objects s"
  by (simp add: log_event_def)

lemma events_log_event [simp]: "events (log_event ev s) = events s @ [ev]"
  by (simp add: log_event_def)

lemma next_block_log_event [simp]: "next_block (log_event ev s) = next_block s"
  by (simp add: log_event_def)

lemma next_object_log_event [simp]: "next_object (log_event ev s) = next_object s"
  by (simp add: log_event_def)

lemma blocks_delete_this [simp]: "blocks (delete_this b s) = (blocks s)(b := None)"
  by (simp add: delete_this_def)

lemma objects_delete_this [simp]: "objects (delete_this b s) = objects s"
  by (simp add: delete_this_def)

lemma events_delete_this [simp]: "events (delete_this b s) = events s @ [BlockDeleted b]"
  by (simp add: delete_this_def)

lemma next_block_delete_this [simp]: "next_block (delete_this b s) = next_block s"
  by (simp add: delete_this_def)

lemma next_object_delete_this [simp]: "next_object (delete_this b s) = next_object s"
  by (simp add: delete_this_def)

subsection \<open>The object's destructor\<close>

lemma destroy_T_plain:
  "objects s a = Some ob \<Longrightarrow> weak_this ob = None \<Longrightarrow>
   destroy_T a s = Inr (s\<lparr>objects := (objects s)(a := None)\<rparr>)"
  by (simp add: destroy_T_def)

lemma destroy_T_bound:
  "objects s a = Some ob \<Longrightarrow> weak_this ob = Some w \<Longrightarrow> base_block w = Some b \<Longrightarrow>
   blocks s b = Some cb \<Longrightarrow>
   destroy_T a s =
     Inr ((set_block b (cb\<lparr>weak_counter := weak_counter cb - 1\<rparr>) s)
            \<lparr>objects := (objects s)(a := None)\<rparr>)"
  by (simp add: destroy_T_def EnableSharedFromThis_dtor_def BruteDecreaseWeakCounter_def
      WeakPtr_dtor_def null_handle_def)

lemma destroy_T_unbound:
  "objects s a = Some ob \<Longrightarrow> weak_this ob = Some w \<Longrightarrow> base_block w = None \<Longrightarrow>
   destroy_T a s = Inl NullDeref"
  by (simp add: destroy_T_def EnableSharedFromThis_dtor_def)

subsection \<open>The counter operations, by their effect on each part of the heap\<close>

lemma DecreaseStrongCounter_shared:
  "blocks s b = Some cb \<Longrightarrow> strong_counter cb \<noteq> 1 \<Longrightarrow>
   DecreaseStrongCounter b s =
     Inr (set_block b (cb\<lparr>strong_counter := strong_counter cb - 1\<rparr>) s)"
  by (simp add: DecreaseStrongCounter_def Let_def)

lemma DecreaseStrongCounter_last_plain:
  assumes "blocks s b = Some cb" "strong_counter cb = 1" "control_ptr cb = Some a"
    "objects s a = Some ob" "weak_this ob = None"
  shows "\<exists>s'. DecreaseStrongCounter b s = Inr s' \<and>
           objects s' = (objects s)(a := None) \<and>
           events s' = events s @ [release_event (kind cb) a] @
                         (if weak_counter cb = 0 then [BlockDeleted b] else []) \<and>
           blocks s' = (if weak_counter cb = 0 then (blocks s)(b := None)
                        else (blocks s)(b \<mapsto> cb\<lparr>strong_counter := 0, control_ptr := None\<rparr>)) \<and>
           next_block s' = next_block s \<and> next_object s' = next_object s"
  using assms
  by (cases "kind cb")
    (simp_all add: DecreaseStrongCounter_def Let_def release_object_def destroy_T_plain
      release_event_def)

lemma DecreaseStrongCounter_last_bound:
  assumes "blocks s b = Some cb" "strong_counter cb = 1" "control_ptr cb = Some a"
    "objects s a = Some ob" "weak_this ob = Some w" "base_block w = Some b"
  shows "\<exists>s'. DecreaseStrongCounter b s = Inr s' \<and>
           objects s' = (objects s)(a := None) \<and>
           events s' = events s @ [release_event (kind cb) a] @
                         (if weak_counter cb - 1 = 0 then [BlockDeleted b] else []) \<and>
           blocks s' = (if weak_counter cb - 1 = 0 then (blocks s)(b := None)
                        else (blocks s)(b \<mapsto> cb\<lparr>strong_counter := 0,
                               weak_counter := weak_counter cb - 1, control_ptr := None\<rparr>)) \<and>
           next_block s' = next_block s \<and> next_object s' = next_object s"
  using assms
  by (cases "kind cb")
    (simp_all add: DecreaseStrongCounter_def Let_def release_object_def
      destroy_T_bound [where cb = "cb\<lparr>strong_counter := 0\<rparr>"] release_event_def)

lemma DecreaseStrongCounter_last_null:
  assumes "blocks s b = Some cb" "strong_counter cb = 1" "control_ptr cb = None"
    "kind cb = PtrControlBlock"
  shows "\<exists>s'. DecreaseStrongCounter b s = Inr s' \<and>
           objects s' = objects s \<and>
           events s' = events s @ (if weak_counter cb = 0 then [BlockDeleted b] else []) \<and>
           blocks s' = (if weak_counter cb = 0 then (blocks s)(b := None)
                        else (blocks s)(b \<mapsto> cb\<lparr>strong_counter := 0, control_ptr := None\<rparr>)) \<and>
           next_block s' = next_block s \<and> next_object s' = next_object s"
  using assms
  by (simp add: DecreaseStrongCounter_def Let_def release_object_def)

lemma DecreaseWeakCounter_result:
  assumes "blocks s b = Some cb"
  shows "\<exists>s'. DecreaseWeakCounter b s = Inr s' \<and>
           objects s' = objects s \<and>
           events s' = events s @
              (if weak_counter cb - 1 = 0 \<and> strong_counter cb = 0 then [BlockDeleted b]
               else []) \<and>
           blocks s' = (if weak_counter cb - 1 = 0 \<and> strong_counter cb = 0
                        then (blocks s)(b := None)
                        else (blocks s)(b \<mapsto> cb\<lparr>weak_counter := weak_counter cb - 1\<rparr>)) \<and>
           next_block s' = next_block s \<and> next_object s' = next_object s"
  using assms by (simp add: DecreaseWeakCounter_def Let_def)

lemma bindE_eq_Inr: "bindE m f = Inr y \<longleftrightarrow> (\<exists>x. m = Inr x \<and> f x = Inr y)"
  by (cases m) simp_all

lemma handle_eta [simp]: "\<lparr>base_block = base_block h, observed_ptr = observed_ptr h\<rparr> = (h :: handle)"
  by simp

lemma set_block_same: "blocks s b = Some cb \<Longrightarrow> set_block b cb s = s"
  by (simp add: set_block_def map_upd_triv)

lemma set_block_twice [simp]: "set_block b cb (set_block b cb' s) = set_block b cb s"
  by (simp add: set_block_def)

lemma unat_succ_word: "unat (c :: size_t) < 2 ^ 64 - 1 \<Longrightarrow> unat (c + 1) = unat c + 1"
  by (simp add: unat_word_ariths)

subsection \<open>Counting events\<close>

lemma destroy_count_append [simp]:
  "destroy_count a (xs @ ys) = destroy_count a xs + destroy_count a ys"
  by (simp add: destroy_count_def)

lemma destroy_count_Nil [simp]: "destroy_count a [] = 0"
  by (simp add: destroy_count_def)

lemma destroy_count_release [simp]:
  "destroy_count a (release_event k a # evs) = Suc (destroy_count a evs)"
  by (cases k) (simp_all add: destroy_count_def release_event_def)

lemma destroy_count_BlockDeleted [simp]:
  "destroy_count a (BlockDeleted b # evs) = destroy_count a evs"
  by (simp add: destroy_count_def)

subsection \<open>The handle each operation produces\<close>

lemma SharedPtr_raw_handle:
  "SharedPtr_raw esft p s = Inr (h, s') \<Longrightarrow>
   h = \<lparr>base_block = Some (next_block s), observed_ptr = p\<rparr>"
  by (auto simp: SharedPtr_raw_def new_block_def Let_def bindE_eq_Inr split: if_splits)

lemma SharedPtr_copy_handle: "SharedPtr_copy esft other s = Inr (h, s') \<Longrightarrow> h = other"
  by (auto simp: SharedPtr_copy_def Let_def bindE_eq_Inr split: if_splits option.splits)

lemma SharedPtr_move_handle:
  "SharedPtr_move esft other s = Inr (h, other', s') \<Longrightarrow>
   h = other \<and> other' = \<lparr>base_block = None, observed_ptr = None\<rparr>"
  by (auto simp: SharedPtr_move_def Let_def bindE_eq_Inr split: if_splits)

lemma SharedPtr_alias_handle:
  "SharedPtr_alias esft other p s = Inr (h, s') \<Longrightarrow>
   h = \<lparr>base_block = base_block other, observed_ptr = p\<rparr>"
  by (auto simp: SharedPtr_alias_def Let_def bindE_eq_Inr split: if_splits option.splits)

lemma SharedPtr_from_weak_handle:
  "SharedPtr_from_weak w s = Inr (h, s') \<Longrightarrow> h = w \<and> base_block h \<noteq> None"
  by (auto simp: SharedPtr_from_weak_def Let_def bindE_eq_Inr Expired_def UseCount_def
      split: if_splits option.splits)

lemma Reset_handle:
  "Reset this s = Inr (h, s') \<Longrightarrow> h = \<lparr>base_block = None, observed_ptr = None\<rparr>"
  by (auto simp: Reset_def bindE_eq_Inr)

lemma Reset_ptr_handle:
  "Reset_ptr this p s = Inr (h, s') \<Longrightarrow> base_block h \<noteq> None \<and> observed_ptr h = p"
  by (auto simp: Reset_ptr_def bindE_eq_Inr new_block_def)

lemma SharedPtr_copy_assign_handle:
  "SharedPtr_copy_assign same this other s = Inr (h, s') \<Longrightarrow>
   h = (if same then this else other)"
  by (auto simp: SharedPtr_copy_assign_def bindE_eq_Inr split: if_splits)

lemma SharedPtr_move_assign_handle:
  "SharedPtr_move_assign same this other s = Inr (h, other', s') \<Longrightarrow>
   h = (if same then this else other) \<and>
   other' = (if same then other else \<lparr>base_block = None, observed_ptr = None\<rparr>)"
  by (auto simp: SharedPtr_move_assign_def bindE_eq_Inr split: if_splits)

lemma SharedPtr_raw_null:
  "\<exists>h s1. SharedPtr_raw False None s = Inr (h, s1) \<and> base_block h = Some (next_block s) \<and>
     blocks s1 (next_block s) =
       Some \<lparr>kind = PtrControlBlock, strong_counter = 1, weak_counter = 0, control_ptr = None\<rparr> \<and>
     UseCount h s1 = Inr 1 \<and> Get h = None \<and> \<not> operator_bool h \<and>
     (\<exists>s2. SharedPtr_dtor h s1 = Inr s2 \<and> blocks s2 (next_block s) = None \<and>
        events s2 = events s @ [BlockDeleted (next_block s)] \<and> objects s2 = objects s)"
proof -
  let ?cb = "\<lparr>kind = PtrControlBlock, strong_counter = 1, weak_counter = 0, control_ptr = None\<rparr>"
  let ?s1 = "s\<lparr>blocks := (blocks s)(next_block s \<mapsto> ?cb), next_block := next_block s + 1\<rparr>"
  let ?h = "\<lparr>base_block = Some (next_block s), observed_ptr = None\<rparr>"
  have ctor: "SharedPtr_raw False None s = Inr (?h, ?s1)"
    by (simp add: SharedPtr_raw_def new_block_def)
  have "\<exists>s2. DecreaseStrongCounter (next_block s) ?s1 = Inr s2 \<and>
           objects s2 = objects ?s1 \<and>
           events s2 = events ?s1 @ (if weak_counter ?cb = 0 then [BlockDeleted (next_block s)] else []) \<and>
           blocks s2 = (if weak_counter ?cb = 0 then (blocks ?s1)(next_block s := None)
                        else (blocks ?s1)(next_block s \<mapsto> ?cb\<lparr>strong_counter := 0, control_ptr := None\<rparr>)) \<and>
           next_block s2 = next_block ?s1 \<and> next_object s2 = next_object ?s1"
    by (rule DecreaseStrongCounter_last_null) simp_all
  then obtain s2 where "DecreaseStrongCounter (next_block s) ?s1 = Inr s2"
    "objects s2 = objects s" "events s2 = events s @ [BlockDeleted (next_block s)]"
    "blocks s2 (next_block s) = None"
    by auto
  then show ?thesis
    using ctor by (simp add: UseCount_def GetStrongCounter_def Get_def operator_bool_def SharedPtr_dtor_def)
qed

section \<open>Groups of strong handles\<close>

subsection \<open>Counting the handles that refer to a block\<close>

lemma length_filter_update:
  "i < length xs \<Longrightarrow>
   length (filter P (xs[i := y])) + (if P (xs ! i) then 1 else 0) =
   length (filter P xs) + (if P y then 1 else 0)"
proof (induction xs arbitrary: i)
  case Nil
  then show ?case by simp
next
  case (Cons x xs)
  then show ?case by (cases i) auto
qed

lemma refs_Nil [simp]: "refs b [] = 0"
  by (simp add: refs_def)

lemma refs_append [simp]: "refs b (hs @ hs') = refs b hs + refs b hs'"
  by (simp add: refs_def)

lemma refs_single_Some [simp]:
  "refs b [Some h] = (if base_block h = Some b then 1 else 0)"
  by (simp add: refs_def)

lemma refs_single_None [simp]: "refs b [None] = 0"
  by (simp add: refs_def)

lemma refs_update_Some:
  "i < length hs \<Longrightarrow> hs ! i = Some h \<Longrightarrow>
   refs b (hs[i := Some h']) + (if base_block h = Some b then 1 else 0) =
   refs b hs + (if base_block h' = Some b then 1 else 0)"
  using length_filter_update [of i hs
      "\<lambda>x. case x of None \<Rightarrow> False | Some h \<Rightarrow> base_block h = Some b" "Some h'"]
  by (simp add: refs_def)

lemma refs_update_None:
  "i < length hs \<Longrightarrow> hs ! i = Some h \<Longrightarrow>
   refs b (hs[i := None]) + (if base_block h = Some b then 1 else 0) = refs b hs"
  using length_filter_update [of i hs
      "\<lambda>x. case x of None \<Rightarrow> False | Some h \<Rightarrow> base_block h = Some b" None]
  by (simp add: refs_def)

lemma refs_le_length: "refs b hs \<le> length hs"
  by (simp add: refs_def)

lemma slot_Inr: "slot hs i = Inr h \<longleftrightarrow> i < length hs \<and> hs ! i = Some h"
  by (auto simp: slot_def split: option.splits)

lemma slot_in_set: "slot hs i = Inr h \<Longrightarrow> Some h \<in> set hs"
  by (metis nth_mem slot_Inr)

lemma refs_pos: "Some h \<in> set hs \<Longrightarrow> base_block h = Some b \<Longrightarrow> 0 < refs b hs"
  by (auto simp: refs_def filter_empty_conv intro!: bexI [of _ "Some h"])

lemma set_update_members:
  "x \<in> set (hs[i := y]) \<Longrightarrow> x = y \<or> x \<in> set hs"
  using set_update_subset_insert [of hs i y] by auto

subsection \<open>The heap of a group under the counter operations\<close>

lemma group_heap_live:
  assumes "group_heap esft b a n s" "0 < n"
  obtains cb ob where "blocks s b = Some cb" "unat (strong_counter cb) = n"
    "control_ptr cb = Some a" "objects s a = Some ob"
    "case weak_this ob of None \<Rightarrow> \<not> esft | Some w \<Rightarrow> base_block w = Some b"
    "destroy_count a (events s) = 0"
  using assms by (auto simp: group_heap_def split: option.splits)

lemma group_heap_liveI:
  assumes "0 < n" "blocks s b = Some cb" "unat (strong_counter cb) = n"
    "control_ptr cb = Some a" "objects s a = Some ob"
    "case weak_this ob of None \<Rightarrow> \<not> esft | Some w \<Rightarrow> base_block w = Some b"
    "destroy_count a (events s) = 0"
  shows "group_heap esft b a n s"
  using assms by (simp add: group_heap_def)

lemma group_heap_increase:
  assumes g: "group_heap esft b a n s" and n: "0 < n" "n + 1 < 2 ^ 64"
  shows "\<exists>s'. IncreaseStrongCounter b s = Inr s' \<and> group_heap esft b a (n + 1) s' \<and>
           objects s' = objects s"
proof -
  from g n(1) obtain cb ob where cb: "blocks s b = Some cb" "unat (strong_counter cb) = n"
    "control_ptr cb = Some a" "objects s a = Some ob"
    "case weak_this ob of None \<Rightarrow> \<not> esft | Some w \<Rightarrow> base_block w = Some b"
    "destroy_count a (events s) = 0"
    by (rule group_heap_live)
  have "unat (strong_counter cb + 1) = n + 1"
    using cb(2) n(2) by (simp add: unat_word_ariths)
  then have "group_heap esft b a (n + 1)
      (set_block b (cb\<lparr>strong_counter := strong_counter cb + 1\<rparr>) s)"
    using cb
    by (intro group_heap_liveI [where ob = ob
          and cb = "cb\<lparr>strong_counter := strong_counter cb + 1\<rparr>"]) simp_all
  then show ?thesis
    using cb(1) by (simp add: IncreaseStrongCounter_def)
qed

lemma group_heap_decrease:
  assumes g: "group_heap esft b a n s" and n: "0 < n"
  shows "\<exists>s'. DecreaseStrongCounter b s = Inr s' \<and> group_heap esft b a (n - 1) s' \<and>
           objects s' = (if n = 1 then (objects s)(a := None) else objects s)"
proof -
  from g n obtain cb ob where cb: "blocks s b = Some cb" "unat (strong_counter cb) = n"
    "control_ptr cb = Some a" "objects s a = Some ob"
    "case weak_this ob of None \<Rightarrow> \<not> esft | Some w \<Rightarrow> base_block w = Some b"
    "destroy_count a (events s) = 0"
    by (rule group_heap_live)
  show ?thesis
  proof (cases "n = 1")
    case False
    with cb(2) have ne: "strong_counter cb \<noteq> 1" by auto
    from cb(2) n have "strong_counter cb \<noteq> 0" by auto
    then have "unat (strong_counter cb - 1) = n - 1"
      using cb(2) by (simp add: unat_minus_one)
    then have "group_heap esft b a (n - 1)
        (set_block b (cb\<lparr>strong_counter := strong_counter cb - 1\<rparr>) s)"
      using cb False n
      by (intro group_heap_liveI [where ob = ob
            and cb = "cb\<lparr>strong_counter := strong_counter cb - 1\<rparr>"]) simp_all
    then show ?thesis
      using cb(1) ne False by (simp add: DecreaseStrongCounter_shared)
  next
    case True
    with cb(2) have one: "strong_counter cb = 1"
      by (metis unat_1 word_unat_eq_iff)
    show ?thesis
    proof (cases "weak_this ob")
      case None
      from DecreaseStrongCounter_last_plain [OF cb(1) one cb(3) cb(4) None]
      obtain s' where "DecreaseStrongCounter b s = Inr s'"
        "objects s' = (objects s)(a := None)"
        "events s' = events s @ [release_event (kind cb) a] @
                         (if weak_counter cb = 0 then [BlockDeleted b] else [])"
        by blast
      then show ?thesis
        using True cb(6) by (auto simp: group_heap_def)
    next
      case (Some w)
      with cb(5) have bw: "base_block w = Some b" by simp
      from DecreaseStrongCounter_last_bound [OF cb(1) one cb(3) cb(4) Some bw]
      obtain s' where "DecreaseStrongCounter b s = Inr s'"
        "objects s' = (objects s)(a := None)"
        "events s' = events s @ [release_event (kind cb) a] @
                         (if weak_counter cb - 1 = 0 then [BlockDeleted b] else [])"
        by blast
      then show ?thesis
        using True cb(6) by (auto simp: group_heap_def)
    qed
  qed
qed

lemma group_heap_InitWeakThis:
  assumes g: "group_heap True b a n s" and n: "0 < n"
    and hthis: "base_block this = Some b" "observed_ptr this = Some a"
  shows "\<exists>s' ob. InitWeakThis this (Some a) s = Inr s' \<and> group_heap True b a n s' \<and>
           objects s a = Some ob \<and>
           objects s' = (objects s)(a \<mapsto> ob\<lparr>weak_this := Some this\<rparr>)"
proof -
  from g n obtain cb ob where cb: "blocks s b = Some cb" "unat (strong_counter cb) = n"
    "control_ptr cb = Some a" "objects s a = Some ob"
    "case weak_this ob of None \<Rightarrow> \<not> True | Some w \<Rightarrow> base_block w = Some b"
    "destroy_count a (events s) = 0"
    by (rule group_heap_live)
  from cb(5) obtain w where w: "weak_this ob = Some w" "base_block w = Some b"
    by (auto split: option.splits)
  from cb(2) n have nz: "strong_counter cb \<noteq> 0" by auto
  let ?s' = "s\<lparr>objects := (objects s)(a \<mapsto> ob\<lparr>weak_this := Some this\<rparr>)\<rparr>"
  have teq: "\<lparr>base_block = Some b, observed_ptr = Some a\<rparr> = this"
    using hthis by (cases this) simp
  have run: "InitWeakThis this (Some a) s = Inr ?s'"
    using cb(1,4) w nz hthis
    by (simp add: teq InitWeakThis_def WeakPtr_copy_def IncreaseWeakCounter_def
        WeakPtr_move_assign_def DecreaseWeakCounter_def Let_def WeakPtr_dtor_def
        null_handle_def set_block_same)
  have "group_heap True b a n ?s'"
    using cb n hthis
    by (intro group_heap_liveI [where cb = cb and ob = "ob\<lparr>weak_this := Some this\<rparr>"])
      simp_all
  then show ?thesis
    using run cb(4) by auto
qed

subsection \<open>The handle operations on a member of a group\<close>

lemma handle_group_iff:
  "handle_group esft b a (hs, s) \<longleftrightarrow>
     (\<forall>h. Some h \<in> set hs \<longrightarrow> in_group esft b a h) \<and> group_heap esft b a (refs b hs) s"
  by (auto simp: handle_group_def split: option.splits)

lemma in_group_empty [simp]:
  "in_group esft b a \<lparr>base_block = None, observed_ptr = None\<rparr>"
  by (simp add: in_group_def)

lemma in_group_cases:
  assumes "in_group esft b a h"
  obtains (empty) "base_block h = None" "esft \<Longrightarrow> observed_ptr h = None"
  | (member) "base_block h = Some b" "esft \<Longrightarrow> observed_ptr h = Some a"
  using assms by (auto simp: in_group_def)

lemma handle_cleared [simp]:
  "(h :: handle)\<lparr>base_block := None, observed_ptr := None\<rparr> =
     \<lparr>base_block = None, observed_ptr = None\<rparr>"
  by simp

lemma SharedPtr_copy_eq:
  "SharedPtr_copy esft other s =
     bindE (case base_block other of None \<Rightarrow> Inr s | Some b \<Rightarrow> IncreaseStrongCounter b s)
       (\<lambda>s1. if esft
              then bindE (InitWeakThis other (observed_ptr other) s1) (\<lambda>s2. Inr (other, s2))
              else Inr (other, s1))"
  by (simp add: SharedPtr_copy_def)

lemma SharedPtr_move_eq:
  "SharedPtr_move esft other s =
     (if esft
      then bindE (InitWeakThis other (observed_ptr other) s)
             (\<lambda>s1. Inr (other, \<lparr>base_block = None, observed_ptr = None\<rparr>, s1))
      else Inr (other, \<lparr>base_block = None, observed_ptr = None\<rparr>, s))"
  by (simp add: SharedPtr_move_def)

text \<open>The constructors and the destructor on a handle of a group.\<close>

lemma copy_group:
  assumes g: "group_heap esft b a n s" and h: "in_group esft b a h"
    and ok: "esft \<Longrightarrow> base_block h \<noteq> None"
    and n: "base_block h = Some b \<Longrightarrow> 0 < n \<and> n + 1 < 2 ^ 64"
  shows "\<exists>s'. SharedPtr_copy esft h s = Inr (h, s') \<and>
           group_heap esft b a (n + (if base_block h = Some b then 1 else 0)) s' \<and>
           objects s' =
             (if esft then (objects s)(a \<mapsto> (the (objects s a))\<lparr>weak_this := Some h\<rparr>)
              else objects s)"
  using h
proof (cases rule: in_group_cases)
  case empty
  with ok have "\<not> esft" by auto
  with empty g show ?thesis
    by (simp add: SharedPtr_copy_eq)
next
  case member
  with n have n': "0 < n" "n + 1 < 2 ^ 64" by simp_all
  from group_heap_increase [OF g n'] obtain s1 where
    s1: "IncreaseStrongCounter b s = Inr s1" "group_heap esft b a (n + 1) s1"
    "objects s1 = objects s"
    by blast
  show ?thesis
  proof (cases esft)
    case False
    with member s1 show ?thesis
      by (simp add: SharedPtr_copy_eq)
  next
    case True
    with member have obs: "observed_ptr h = Some a" by simp
    from s1(2) True have "group_heap True b a (n + 1) s1" by simp
    from group_heap_InitWeakThis [OF this _ member(1) obs]
    obtain s2 ob where "InitWeakThis h (Some a) s1 = Inr s2" "group_heap True b a (n + 1) s2"
      "objects s1 a = Some ob" "objects s2 = (objects s1)(a \<mapsto> ob\<lparr>weak_this := Some h\<rparr>)"
      by auto
    with member s1 True obs show ?thesis
      by (simp add: SharedPtr_copy_eq)
  qed
qed

lemma move_group:
  assumes g: "group_heap esft b a n s" and h: "in_group esft b a h"
    and ok: "esft \<Longrightarrow> base_block h \<noteq> None"
    and n: "base_block h = Some b \<Longrightarrow> 0 < n"
  shows "\<exists>s'. SharedPtr_move esft h s =
             Inr (h, \<lparr>base_block = None, observed_ptr = None\<rparr>, s') \<and>
           group_heap esft b a n s' \<and>
           objects s' =
             (if esft then (objects s)(a \<mapsto> (the (objects s a))\<lparr>weak_this := Some h\<rparr>)
              else objects s)"
proof (cases esft)
  case False
  with g show ?thesis
    by (simp add: SharedPtr_move_eq)
next
  case True
  with ok h have member: "base_block h = Some b" "observed_ptr h = Some a"
    by (auto simp: in_group_def)
  from g True have "group_heap True b a n s" by simp
  from group_heap_InitWeakThis [OF this _ member] n member(1)
  obtain s2 ob where "InitWeakThis h (Some a) s = Inr s2" "group_heap True b a n s2"
    "objects s a = Some ob" "objects s2 = (objects s)(a \<mapsto> ob\<lparr>weak_this := Some h\<rparr>)"
    by auto
  with member True show ?thesis
    by (simp add: SharedPtr_move_eq)
qed

lemma alias_group:
  assumes g: "group_heap False b a n s" and h: "in_group False b a h"
    and n: "base_block h = Some b \<Longrightarrow> 0 < n \<and> n + 1 < 2 ^ 64"
  shows "\<exists>s'. SharedPtr_alias False h p s =
             Inr (\<lparr>base_block = base_block h, observed_ptr = p\<rparr>, s') \<and>
           group_heap False b a (n + (if base_block h = Some b then 1 else 0)) s' \<and>
           objects s' = objects s"
  using h
proof (cases rule: in_group_cases)
  case empty
  with g show ?thesis
    by (simp add: SharedPtr_alias_def)
next
  case member
  with n have n': "0 < n" "n + 1 < 2 ^ 64" by simp_all
  from group_heap_increase [OF g n'] obtain s1 where
    "IncreaseStrongCounter b s = Inr s1" "group_heap False b a (n + 1) s1"
    "objects s1 = objects s"
    by blast
  with member show ?thesis
    by (simp add: SharedPtr_alias_def)
qed

lemma release_group:
  assumes g: "group_heap esft b a n s" and h: "in_group esft b a h"
    and n: "base_block h = Some b \<Longrightarrow> 0 < n"
  shows "\<exists>s'. SharedPtr_dtor h s = Inr s' \<and>
           Reset h s = Inr (\<lparr>base_block = None, observed_ptr = None\<rparr>, s') \<and>
           group_heap esft b a (n - (if base_block h = Some b then 1 else 0)) s' \<and>
           objects s' =
             (if base_block h = Some b \<and> n = 1 then (objects s)(a := None) else objects s)"
  using h
proof (cases rule: in_group_cases)
  case empty
  with g show ?thesis
    by (simp add: SharedPtr_dtor_def Reset_def)
next
  case member
  with n have "0 < n" by simp
  from group_heap_decrease [OF g this] obtain s1 where
    "DecreaseStrongCounter b s = Inr s1" "group_heap esft b a (n - 1) s1"
    "objects s1 = (if n = 1 then (objects s)(a := None) else objects s)"
    by blast
  with member show ?thesis
    by (simp add: SharedPtr_dtor_def Reset_def)
qed

subsection \<open>Program steps\<close>

lemma handle_group_member:
  "handle_group esft b a (hs, s) \<Longrightarrow> slot hs i = Inr h \<Longrightarrow> in_group esft b a h"
  by (simp add: handle_group_iff slot_in_set)

lemma handle_group_heap:
  "handle_group esft b a (hs, s) \<Longrightarrow> group_heap esft b a (refs b hs) s"
  by (simp add: handle_group_iff)

lemma refs_bound:
  "slot hs i = Inr h \<Longrightarrow> base_block h = Some b \<Longrightarrow> length hs + 1 < 2 ^ 64 \<Longrightarrow>
   0 < refs b hs \<and> refs b hs + 1 < 2 ^ 64"
  using refs_pos [OF slot_in_set, of hs i h b] refs_le_length [of b hs] by simp

lemma step_Copy_group:
  assumes inv: "handle_group esft b a (hs, s)" and sl: "slot hs i = Inr h"
    and ok: "\<not> esft \<or> base_block h \<noteq> None" and bound: "length hs + 1 < 2 ^ 64"
  shows "\<exists>s'. step esft (Copy i) (hs, s) = Inr (hs @ [Some h], s') \<and>
           handle_group esft b a (hs @ [Some h], s') \<and>
           objects s' =
             (if esft then (objects s)(a \<mapsto> (the (objects s a))\<lparr>weak_this := Some h\<rparr>)
              else objects s)"
proof -
  have h: "in_group esft b a h"
    using inv sl by (rule handle_group_member)
  from ok have ok': "esft \<Longrightarrow> base_block h \<noteq> None" by simp
  from copy_group [OF handle_group_heap [OF inv] h ok' refs_bound [OF sl _ bound]]
  obtain s' where "SharedPtr_copy esft h s = Inr (h, s')"
    "group_heap esft b a (refs b hs + (if base_block h = Some b then 1 else 0)) s'"
    "objects s' =
       (if esft then (objects s)(a \<mapsto> (the (objects s a))\<lparr>weak_this := Some h\<rparr>)
        else objects s)"
    by blast
  then show ?thesis
    using inv h sl by (auto simp: handle_group_iff)
qed

lemma step_Move_group:
  assumes inv: "handle_group esft b a (hs, s)" and sl: "slot hs i = Inr h"
    and ok: "\<not> esft \<or> base_block h \<noteq> None"
  shows "\<exists>s'. step esft (Move i) (hs, s) =
             Inr (hs[i := Some \<lparr>base_block = None, observed_ptr = None\<rparr>] @ [Some h], s') \<and>
           handle_group esft b a
             (hs[i := Some \<lparr>base_block = None, observed_ptr = None\<rparr>] @ [Some h], s') \<and>
           objects s' =
             (if esft then (objects s)(a \<mapsto> (the (objects s a))\<lparr>weak_this := Some h\<rparr>)
              else objects s)"
proof -
  have h: "in_group esft b a h"
    using inv sl by (rule handle_group_member)
  have pos: "base_block h = Some b \<Longrightarrow> 0 < refs b hs"
    using refs_pos [OF slot_in_set [OF sl]] by simp
  from ok have ok': "esft \<Longrightarrow> base_block h \<noteq> None" by simp
  from move_group [OF handle_group_heap [OF inv] h ok' pos]
  obtain s' where s': "SharedPtr_move esft h s =
      Inr (h, \<lparr>base_block = None, observed_ptr = None\<rparr>, s')"
    "group_heap esft b a (refs b hs) s'"
    "objects s' =
       (if esft then (objects s)(a \<mapsto> (the (objects s a))\<lparr>weak_this := Some h\<rparr>)
        else objects s)"
    by blast
  from sl have i: "i < length hs" "hs ! i = Some h"
    by (simp_all add: slot_Inr)
  have r: "refs b (hs[i := Some \<lparr>base_block = None, observed_ptr = None\<rparr>] @ [Some h]) =
      refs b hs"
    using refs_update_Some [OF i, of b "\<lparr>base_block = None, observed_ptr = None\<rparr>"]
    by simp
  have "\<forall>x. Some x \<in> set (hs[i := Some \<lparr>base_block = None, observed_ptr = None\<rparr>]) \<longrightarrow>
      in_group esft b a x"
    using inv by (auto simp: handle_group_iff dest!: set_update_members)
  then show ?thesis
    using s' h sl r by (auto simp: handle_group_iff)
qed

lemma step_Alias_group:
  assumes inv: "handle_group False b a (hs, s)" and sl: "slot hs i = Inr h"
    and bound: "length hs + 1 < 2 ^ 64"
  shows "\<exists>s'. step False (Alias i p) (hs, s) =
             Inr (hs @ [Some \<lparr>base_block = base_block h, observed_ptr = p\<rparr>], s') \<and>
           handle_group False b a
             (hs @ [Some \<lparr>base_block = base_block h, observed_ptr = p\<rparr>], s') \<and>
           objects s' = objects s"
proof -
  have h: "in_group False b a h"
    using inv sl by (rule handle_group_member)
  from alias_group [OF handle_group_heap [OF inv] h refs_bound [OF sl _ bound]]
  obtain s' where "SharedPtr_alias False h p s =
      Inr (\<lparr>base_block = base_block h, observed_ptr = p\<rparr>, s')"
    "group_heap False b a (refs b hs + (if base_block h = Some b then 1 else 0)) s'"
    "objects s' = objects s"
    by blast
  moreover have "in_group False b a \<lparr>base_block = base_block h, observed_ptr = p\<rparr>"
    using h by (simp add: in_group_def)
  ultimately show ?thesis
    using inv sl by (auto simp: handle_group_iff)
qed

lemma step_release_group:
  assumes inv: "handle_group esft b a (hs, s)" and sl: "slot hs i = Inr h"
  shows "\<exists>s'. step esft (ResetOp i) (hs, s) =
             Inr (hs[i := Some \<lparr>base_block = None, observed_ptr = None\<rparr>], s') \<and>
           step esft (Destroy i) (hs, s) = Inr (hs[i := None], s') \<and>
           handle_group esft b a
             (hs[i := Some \<lparr>base_block = None, observed_ptr = None\<rparr>], s') \<and>
           handle_group esft b a (hs[i := None], s') \<and>
           objects s' =
             (if base_block h = Some b \<and> refs b hs = 1 then (objects s)(a := None)
              else objects s)"
proof -
  have h: "in_group esft b a h"
    using inv sl by (rule handle_group_member)
  have pos: "base_block h = Some b \<Longrightarrow> 0 < refs b hs"
    using refs_pos [OF slot_in_set [OF sl]] by simp
  from release_group [OF handle_group_heap [OF inv] h pos]
  obtain s' where s': "SharedPtr_dtor h s = Inr s'"
    "Reset h s = Inr (\<lparr>base_block = None, observed_ptr = None\<rparr>, s')"
    "group_heap esft b a (refs b hs - (if base_block h = Some b then 1 else 0)) s'"
    "objects s' =
       (if base_block h = Some b \<and> refs b hs = 1 then (objects s)(a := None) else objects s)"
    by blast
  from sl have i: "i < length hs" "hs ! i = Some h"
    by (simp_all add: slot_Inr)
  have r1: "refs b (hs[i := Some \<lparr>base_block = None, observed_ptr = None\<rparr>]) =
      refs b hs - (if base_block h = Some b then 1 else 0)"
    using refs_update_Some [OF i, of b "\<lparr>base_block = None, observed_ptr = None\<rparr>"]
    by simp
  have r2: "refs b (hs[i := None]) = refs b hs - (if base_block h = Some b then 1 else 0)"
    using refs_update_None [OF i, of b] by simp
  have m1: "\<forall>x. Some x \<in> set (hs[i := Some \<lparr>base_block = None, observed_ptr = None\<rparr>]) \<longrightarrow>
      in_group esft b a x"
    using inv by (auto simp: handle_group_iff dest!: set_update_members)
  have m2: "\<forall>x. Some x \<in> set (hs[i := None]) \<longrightarrow> in_group esft b a x"
    using inv by (auto simp: handle_group_iff dest!: set_update_members)
  show ?thesis
    using s' sl r1 r2 m1 m2 by (simp add: handle_group_iff)
qed

lemma refs_two:
  assumes i: "slot hs i = Inr h" "base_block h = Some b"
    and j: "slot hs j = Inr h'" "base_block h' = Some b" and ne: "i \<noteq> j"
  shows "2 \<le> refs b hs"
proof -
  from i(1) have il: "i < length hs" "hs ! i = Some h"
    by (simp_all add: slot_Inr)
  from j(1) ne have "slot (hs[i := None]) j = Inr h'"
    by (simp add: slot_Inr)
  then have "0 < refs b (hs[i := None])"
    using refs_pos [OF slot_in_set] j(2) by blast
  with refs_update_None [OF il, of b] i(2) show ?thesis
    by simp
qed

lemma group_heap_bound:
  assumes "group_heap esft b a n s"
  shows "n < 2 ^ 64"
proof (cases "n = 0")
  case True
  then show ?thesis by simp
next
  case False
  then have "0 < n" by simp
  with assms obtain cb :: control_block where "unat (strong_counter cb) = n"
    by (rule group_heap_live)
  moreover have "unat (strong_counter cb) < 2 ^ 64"
    using unsigned_less [of "strong_counter cb", where 'a = nat] by simp
  ultimately show ?thesis by simp
qed

lemma copy_assign_group:
  assumes g: "group_heap esft b a n s" and h: "in_group esft b a this" "in_group esft b a other"
    and n: "base_block this = Some b \<Longrightarrow> 0 < n"
      "base_block other = Some b \<Longrightarrow> 0 < n"
      "base_block this = Some b \<Longrightarrow> base_block other = Some b \<Longrightarrow> 2 \<le> n"
      "base_block this = None \<Longrightarrow> base_block other = Some b \<Longrightarrow> n + 1 < 2 ^ 64"
  shows "\<exists>s'. SharedPtr_copy_assign False this other s = Inr (other, s') \<and>
           group_heap esft b a
             (n - (if base_block this = Some b then 1 else 0) +
                  (if base_block other = Some b then 1 else 0)) s' \<and>
           objects s' =
             (if base_block this = Some b \<and> n = 1 then (objects s)(a := None) else objects s)"
proof -
  from release_group [OF g h(1) n(1)] obtain s1 where
    s1: "SharedPtr_dtor this s = Inr s1"
    "group_heap esft b a (n - (if base_block this = Some b then 1 else 0)) s1"
    "objects s1 =
       (if base_block this = Some b \<and> n = 1 then (objects s)(a := None) else objects s)"
    by blast
  from s1(1) have rel: "(case base_block this of None \<Rightarrow> Inr s
      | Some b \<Rightarrow> DecreaseStrongCounter b s) = Inr s1"
    by (simp add: SharedPtr_dtor_def)
  from h(2) show ?thesis
  proof (cases rule: in_group_cases)
    case empty
    with rel s1 show ?thesis
      by (simp add: SharedPtr_copy_assign_def)
  next
    case member
    let ?m = "n - (if base_block this = Some b then 1 else 0)"
    have m: "0 < ?m" "?m + 1 < 2 ^ 64"
      using n member(1) h(1) group_heap_bound [OF g]
      by (auto elim!: in_group_cases)
    from group_heap_increase [OF s1(2) m] obtain s2 where
      "IncreaseStrongCounter b s1 = Inr s2" "group_heap esft b a (?m + 1) s2"
      "objects s2 = objects s1"
      by blast
    with rel s1(3) member(1) show ?thesis
      by (simp add: SharedPtr_copy_assign_def)
  qed
qed

lemma move_assign_group:
  assumes g: "group_heap esft b a n s" and h: "in_group esft b a this"
    and n: "base_block this = Some b \<Longrightarrow> 0 < n"
  shows "\<exists>s'. SharedPtr_move_assign False this other s =
             Inr (other, \<lparr>base_block = None, observed_ptr = None\<rparr>, s') \<and>
           group_heap esft b a (n - (if base_block this = Some b then 1 else 0)) s' \<and>
           objects s' =
             (if base_block this = Some b \<and> n = 1 then (objects s)(a := None) else objects s)"
proof -
  from release_group [OF g h n] obtain s1 where
    s1: "SharedPtr_dtor this s = Inr s1"
    "group_heap esft b a (n - (if base_block this = Some b then 1 else 0)) s1"
    "objects s1 =
       (if base_block this = Some b \<and> n = 1 then (objects s)(a := None) else objects s)"
    by blast
  from s1(1) have rel: "(case base_block this of None \<Rightarrow> Inr s
      | Some b \<Rightarrow> DecreaseStrongCounter b s) = Inr s1"
    by (simp add: SharedPtr_dtor_def)
  with s1 show ?thesis
    by (simp add: SharedPtr_move_assign_def)
qed

lemma step_CopyAssign_group:
  assumes inv: "handle_group esft b a (hs, s)" and si: "slot hs i = Inr this"
    and sj: "slot hs j = Inr other" and bound: "length hs + 1 < 2 ^ 64"
  shows "\<exists>s'. step esft (CopyAssign i j) (hs, s) = Inr (hs[i := Some other], s') \<and>
           handle_group esft b a (hs[i := Some other], s') \<and>
           objects s' =
             (if i \<noteq> j \<and> base_block this = Some b \<and> refs b hs = 1
              then (objects s)(a := None) else objects s)"
proof (cases "i = j")
  case True
  with si sj have "other = this" by simp
  moreover from si have "hs[i := Some this] = hs"
    by (simp add: slot_Inr list_update_same_conv)
  ultimately show ?thesis
    using True inv si by (simp add: SharedPtr_copy_assign_def)
next
  case False
  have ht: "in_group esft b a this" and ho: "in_group esft b a other"
    using inv si sj by (auto intro: handle_group_member)
  have n1: "base_block this = Some b \<Longrightarrow> 0 < refs b hs"
    using refs_pos [OF slot_in_set [OF si]] by simp
  have n2: "base_block other = Some b \<Longrightarrow> 0 < refs b hs"
    using refs_pos [OF slot_in_set [OF sj]] by simp
  have n3: "base_block this = Some b \<Longrightarrow> base_block other = Some b \<Longrightarrow> 2 \<le> refs b hs"
    using refs_two [OF si _ sj _ False] by simp
  have n4: "base_block this = None \<Longrightarrow> base_block other = Some b \<Longrightarrow>
      refs b hs + 1 < 2 ^ 64"
    using refs_bound [OF sj _ bound] by simp
  from copy_assign_group [OF handle_group_heap [OF inv] ht ho n1 n2 n3 n4]
  obtain s' where s': "SharedPtr_copy_assign False this other s = Inr (other, s')"
    "group_heap esft b a
       (refs b hs - (if base_block this = Some b then 1 else 0) +
          (if base_block other = Some b then 1 else 0)) s'"
    "objects s' =
       (if base_block this = Some b \<and> refs b hs = 1 then (objects s)(a := None)
        else objects s)"
    by blast
  from si have il: "i < length hs" "hs ! i = Some this"
    by (simp_all add: slot_Inr)
  have r: "refs b (hs[i := Some other]) =
      refs b hs - (if base_block this = Some b then 1 else 0) +
        (if base_block other = Some b then 1 else 0)"
    using refs_update_Some [OF il, of b other] n1 by (auto split: if_splits)
  have m: "\<forall>x. Some x \<in> set (hs[i := Some other]) \<longrightarrow> in_group esft b a x"
    using inv ho by (auto simp: handle_group_iff dest!: set_update_members)
  show ?thesis
    using s' si sj r m False by (simp add: handle_group_iff)
qed

lemma step_MoveAssign_group:
  assumes inv: "handle_group esft b a (hs, s)" and si: "slot hs i = Inr this"
    and sj: "slot hs j = Inr other"
  shows "\<exists>s'. step esft (MoveAssign i j) (hs, s) =
             Inr (if i = j then hs
                  else hs[j := Some \<lparr>base_block = None, observed_ptr = None\<rparr>, i := Some other],
                  s') \<and>
           handle_group esft b a
             (if i = j then hs
              else hs[j := Some \<lparr>base_block = None, observed_ptr = None\<rparr>, i := Some other],
              s') \<and>
           objects s' =
             (if i \<noteq> j \<and> base_block this = Some b \<and> refs b hs = 1
              then (objects s)(a := None) else objects s)"
proof (cases "i = j")
  case True
  with si sj have "other = this" by simp
  moreover from si have "hs[i := Some this] = hs"
    by (simp add: slot_Inr list_update_same_conv)
  ultimately show ?thesis
    using True inv si by (simp add: SharedPtr_move_assign_def)
next
  case False
  let ?null = "\<lparr>base_block = None, observed_ptr = None\<rparr>"
  have ht: "in_group esft b a this" and ho: "in_group esft b a other"
    using inv si sj by (auto intro: handle_group_member)
  have n1: "base_block this = Some b \<Longrightarrow> 0 < refs b hs"
    using refs_pos [OF slot_in_set [OF si]] by simp
  from move_assign_group [OF handle_group_heap [OF inv] ht n1, of other]
  obtain s' where s': "SharedPtr_move_assign False this other s = Inr (other, ?null, s')"
    "group_heap esft b a (refs b hs - (if base_block this = Some b then 1 else 0)) s'"
    "objects s' =
       (if base_block this = Some b \<and> refs b hs = 1 then (objects s)(a := None)
        else objects s)"
    by blast
  from si have il: "i < length hs" "hs ! i = Some this"
    by (simp_all add: slot_Inr)
  from sj have jl: "j < length hs" "hs ! j = Some other"
    by (simp_all add: slot_Inr)
  have il': "i < length (hs[j := Some ?null])" "hs[j := Some ?null] ! i = Some this"
    using il False by simp_all
  have r1: "refs b (hs[j := Some ?null]) + (if base_block other = Some b then 1 else 0) =
      refs b hs"
    using refs_update_Some [OF jl, of b ?null] by simp
  have r2: "refs b (hs[j := Some ?null, i := Some other]) +
      (if base_block this = Some b then 1 else 0) =
      refs b (hs[j := Some ?null]) + (if base_block other = Some b then 1 else 0)"
    using refs_update_Some [OF il', of b other] by simp
  have r: "refs b (hs[j := Some ?null, i := Some other]) =
      refs b hs - (if base_block this = Some b then 1 else 0)"
    using r1 r2 by (auto split: if_splits)
  have m: "\<forall>x. Some x \<in> set (hs[j := Some ?null, i := Some other]) \<longrightarrow> in_group esft b a x"
    using inv ho by (auto simp: handle_group_iff dest!: set_update_members)
  show ?thesis
    using s' si sj r m False by (simp add: handle_group_iff)
qed

lemma op_ok_slot: "op_ok esft x hs \<Longrightarrow> \<exists>i h. slot hs i = Inr h"
  by (cases x) (auto split: sum.splits)

lemma step_group_pair:
  assumes s: "handle_group esft b a (hs, s)" and t: "handle_group esft b a (hs, t)"
    and eq: "objects s = objects t" and ok: "op_ok esft x hs"
    and bound: "length hs + 1 < 2 ^ 64"
  shows "\<exists>hs' s' t'. step esft x (hs, s) = Inr (hs', s') \<and> step esft x (hs, t) = Inr (hs', t') \<and>
           handle_group esft b a (hs', s') \<and> handle_group esft b a (hs', t') \<and>
           objects s' = objects t' \<and> length hs' \<le> length hs + 1"
proof (cases x)
  case (Copy i)
  with ok obtain h where h: "slot hs i = Inr h" "\<not> esft \<or> base_block h \<noteq> None"
    by (auto split: sum.splits)
  from step_Copy_group [OF s h bound] step_Copy_group [OF t h bound] eq Copy
  show ?thesis by (elim exE conjE) (simp del: step.simps)
next
  case (Move i)
  with ok obtain h where h: "slot hs i = Inr h" "\<not> esft \<or> base_block h \<noteq> None"
    by (auto split: sum.splits)
  from step_Move_group [OF s h] step_Move_group [OF t h] eq Move
  show ?thesis by (elim exE conjE) (simp del: step.simps)
next
  case (Alias i p)
  with ok obtain h where h: "slot hs i = Inr h" and e: "\<not> esft"
    by (auto split: sum.splits)
  from s t e have s': "handle_group False b a (hs, s)" and t': "handle_group False b a (hs, t)"
    by simp_all
  from step_Alias_group [OF s' h bound, of p] step_Alias_group [OF t' h bound, of p] eq Alias e
  show ?thesis by (elim exE conjE) (simp del: step.simps)
next
  case (CopyAssign i j)
  with ok obtain h h' where h: "slot hs i = Inr h" "slot hs j = Inr h'"
    by (auto split: sum.splits)
  from step_CopyAssign_group [OF s h bound] step_CopyAssign_group [OF t h bound] eq CopyAssign
  show ?thesis by (elim exE conjE) (simp del: step.simps)
next
  case (MoveAssign i j)
  with ok obtain h h' where h: "slot hs i = Inr h" "slot hs j = Inr h'"
    by (auto split: sum.splits)
  from step_MoveAssign_group [OF s h] step_MoveAssign_group [OF t h] eq MoveAssign
  show ?thesis by (elim exE conjE) (simp del: step.simps)
next
  case (ResetOp i)
  with ok obtain h where h: "slot hs i = Inr h"
    by (auto split: sum.splits)
  from step_release_group [OF s h] step_release_group [OF t h] eq ResetOp
  show ?thesis by (elim exE conjE) (simp del: step.simps)
next
  case (Destroy i)
  with ok obtain h where h: "slot hs i = Inr h"
    by (auto split: sum.splits)
  from step_release_group [OF s h] step_release_group [OF t h] eq Destroy
  show ?thesis by (elim exE conjE) (simp del: step.simps)
qed

lemma run_group_pair:
  assumes "handle_group esft b a (hs, s)" "handle_group esft b a (hs, t)"
    "objects s = objects t" "prog_ok esft ops (hs, s)" "length hs + length ops < 2 ^ 64"
  shows "\<exists>hs' s' t'. run esft ops (hs, s) = Inr (hs', s') \<and>
           run esft ops (hs, t) = Inr (hs', t') \<and>
           handle_group esft b a (hs', s') \<and> handle_group esft b a (hs', t') \<and>
           objects s' = objects t'"
  using assms
proof (induction ops arbitrary: hs s t)
  case Nil
  then show ?case by simp
next
  case (Cons x xs)
  from Cons.prems(4) have ok: "op_ok esft x hs" by simp
  from Cons.prems(5) have bound: "length hs + 1 < 2 ^ 64" by simp
  from step_group_pair [OF Cons.prems(1,2,3) ok bound]
  obtain hs' s' t' where st: "step esft x (hs, s) = Inr (hs', s')"
    "step esft x (hs, t) = Inr (hs', t')"
    "handle_group esft b a (hs', s')" "handle_group esft b a (hs', t')"
    "objects s' = objects t'" "length hs' \<le> length hs + 1"
    by blast
  from Cons.prems(4) st(1) have p: "prog_ok esft xs (hs', s')" by simp
  from Cons.prems(5) st(6) have l: "length hs' + length xs < 2 ^ 64" by simp
  from Cons.IH [OF st(3,4,5) p l] st(1,2) show ?case
    by (simp del: step.simps)
qed

lemma run_group:
  assumes "handle_group esft b a (hs, s)" "prog_ok esft ops (hs, s)"
    "length hs + length ops < 2 ^ 64"
  shows "\<exists>hs' s'. run esft ops (hs, s) = Inr (hs', s') \<and> handle_group esft b a (hs', s')"
  using run_group_pair [OF assms(1) assms(1) refl assms(2,3)] by blast

lemma handle_group_UseCount:
  assumes "handle_group esft b a (hs, s)" "Some h \<in> set hs" "base_block h = Some b"
  shows "\<exists>n. UseCount h s = Inr n \<and> unat n = refs b hs"
proof -
  from assms have pos: "0 < refs b hs" by (simp add: refs_pos)
  from assms(1) have "group_heap esft b a (refs b hs) s" by (rule handle_group_heap)
  from this pos obtain cb where "blocks s b = Some cb"
    "unat (strong_counter cb) = refs b hs"
    by (rule group_heap_live)
  with assms(3) show ?thesis
    by (simp add: UseCount_def GetStrongCounter_def)
qed

lemma handle_group_destroy_count:
  assumes "handle_group esft b a (hs, s)"
  shows "destroy_count a (events s) = (if refs b hs = 0 then 1 else 0)"
  using handle_group_heap [OF assms]
  by (cases "refs b hs = 0") (simp_all add: group_heap_def split: option.splits)

lemma handle_group_object:
  assumes "handle_group esft b a (hs, s)"
  shows "objects s a = None \<longleftrightarrow> refs b hs = 0"
  using handle_group_heap [OF assms]
  by (cases "refs b hs = 0") (simp_all add: group_heap_def split: option.splits)

lemma observe_group:
  assumes s: "handle_group esft b a (hs, s)" and t: "handle_group esft b a (hs, t)"
    and eq: "objects s = objects t"
  shows "observe a (hs, s) = observe a (hs, t)"
proof -
  have "UseCount h s = UseCount h t" if "Some h \<in> set hs" for h
  proof (cases "base_block h")
    case None
    then show ?thesis by (simp add: UseCount_def)
  next
    case (Some b')
    with s that have b': "base_block h = Some b"
      by (auto simp: handle_group_iff in_group_def)
    from handle_group_UseCount [OF s that b'] handle_group_UseCount [OF t that b']
    show ?thesis by (auto simp: word_unat_eq_iff)
  qed
  moreover have "deref h s = deref h t" for h
    unfolding deref_def eq ..
  ultimately have "map (map_option (\<lambda>h. (UseCount h s, deref h s, operator_bool h))) hs =
      map (map_option (\<lambda>h. (UseCount h t, deref h t, operator_bool h))) hs"
    by (auto simp: map_option_case split: option.splits)
  then show ?thesis
    using handle_group_destroy_count [OF s] handle_group_destroy_count [OF t]
    by (simp add: observe_def)
qed

lemma prog_ok_take: "prog_ok esft ops st \<Longrightarrow> prog_ok esft (take k ops) st"
proof (induction ops arbitrary: k st)
  case Nil
  then show ?case by simp
next
  case (Cons x xs)
  show ?case
  proof (cases k)
    case 0
    then show ?thesis by simp
  next
    case (Suc j)
    with Cons show ?thesis
      by (auto simp del: step.simps split: sum.splits)
  qed
qed

lemma init_raw_group:
  assumes "destroy_count (next_object s0) (events s0) = 0"
  shows "\<exists>s1. init_raw esft v s0 =
             Inr ([Some \<lparr>base_block = Some (next_block s0),
                          observed_ptr = Some (next_object s0)\<rparr>], s1) \<and>
           handle_group esft (next_block s0) (next_object s0)
             ([Some \<lparr>base_block = Some (next_block s0),
                     observed_ptr = Some (next_object s0)\<rparr>], s1) \<and>
           objects s1 =
             (objects s0)(next_object s0 \<mapsto>
                \<lparr>payload = v,
                 weak_this = (if esft then Some \<lparr>base_block = Some (next_block s0),
                                                 observed_ptr = Some (next_object s0)\<rparr>
                              else None)\<rparr>)"
  using assms
  by (cases esft)
    (simp_all add: init_raw_def new_T_def construct_T_def SharedPtr_raw_def new_block_def
      InitWeakThis_def WeakPtr_copy_def IncreaseWeakCounter_def WeakPtr_move_assign_def
      WeakPtr_default_def null_handle_def WeakPtr_dtor_def handle_group_iff in_group_def
      group_heap_def Let_def)

lemma init_make_group:
  assumes "destroy_count (next_object s0) (events s0) = 0"
  shows "\<exists>s1. init_make esft v s0 =
             Inr ([Some \<lparr>base_block = Some (next_block s0),
                          observed_ptr = Some (next_object s0)\<rparr>], s1) \<and>
           handle_group esft (next_block s0) (next_object s0)
             ([Some \<lparr>base_block = Some (next_block s0),
                     observed_ptr = Some (next_object s0)\<rparr>], s1) \<and>
           objects s1 =
             (objects s0)(next_object s0 \<mapsto>
                \<lparr>payload = v,
                 weak_this = (if esft then Some \<lparr>base_block = Some (next_block s0),
                                                 observed_ptr = Some (next_object s0)\<rparr>
                              else None)\<rparr>)"
  using assms
  by (cases esft)
    (simp_all add: init_make_def MakeShared_def SharedPtr_default_def new_T_def construct_T_def
      new_block_def
      InitWeakThis_def WeakPtr_copy_def IncreaseWeakCounter_def WeakPtr_move_assign_def
      WeakPtr_default_def null_handle_def WeakPtr_dtor_def handle_group_iff in_group_def
      group_heap_def Let_def)

lemma moved_from_is_inert:
  assumes "SharedPtr_move esft h0 s0 = Inr (h1, h2, s1)"
  shows "h2 = \<lparr>base_block = None, observed_ptr = None\<rparr> \<and> UseCount h2 s1 = Inr 0 \<and>
         SharedPtr_dtor h2 s1 = Inr s1"
  using SharedPtr_move_handle [OF assms] by (simp add: UseCount_def SharedPtr_dtor_def)

subsection \<open>Aliasing into an object with the mixin; resetting to a null pointer\<close>

lemma alias_mixin:
  assumes src: "base_block src = Some b" and cb: "blocks s b = Some cb"
    and n: "unat (strong_counter cb) < 2 ^ 64 - 1"
    and ob: "objects s q = Some ob" "weak_this ob = Some w"
    and w: "base_block w = None \<or> base_block w = Some b"
  shows "\<exists>s1. SharedPtr_alias True src (Some q) s =
             Inr (\<lparr>base_block = Some b, observed_ptr = Some q\<rparr>, s1) \<and>
           UseCount \<lparr>base_block = Some b, observed_ptr = Some q\<rparr> s1 =
             Inr (strong_counter cb + 1) \<and>
           unat (strong_counter cb + 1) = unat (strong_counter cb) + 1 \<and>
           events s1 = events s \<and>
           objects s1 =
             (objects s)(q \<mapsto> ob\<lparr>weak_this :=
                Some \<lparr>base_block = Some b, observed_ptr = Some q\<rparr>\<rparr>)"
proof -
  have u: "unat (strong_counter cb + 1) = unat (strong_counter cb) + 1"
    using n by (rule unat_succ_word)
  then have nz: "strong_counter cb + 1 \<noteq> 0"
    by (metis Suc_eq_plus1 nat.simps(3) unat_0)
  from w show ?thesis
  proof
    assume "base_block w = None"
    then show ?thesis
      using src cb ob u
      by (simp add: SharedPtr_alias_def IncreaseStrongCounter_def InitWeakThis_def
          WeakPtr_copy_def IncreaseWeakCounter_def WeakPtr_move_assign_def WeakPtr_dtor_def
          null_handle_def UseCount_def GetStrongCounter_def Let_def)
  next
    assume "base_block w = Some b"
    then show ?thesis
      using src cb ob u nz
      by (simp add: SharedPtr_alias_def IncreaseStrongCounter_def InitWeakThis_def
          WeakPtr_copy_def IncreaseWeakCounter_def WeakPtr_move_assign_def WeakPtr_dtor_def
          DecreaseWeakCounter_def Let_def
          null_handle_def UseCount_def GetStrongCounter_def)
  qed
qed

lemma Reset_ptr_null:
  assumes "Reset this s = Inr (h0, s0)"
  shows "\<exists>h s1. Reset_ptr this None s = Inr (h, s1) \<and> base_block h = Some (next_block s0) \<and>
     blocks s1 (next_block s0) =
       Some \<lparr>kind = PtrControlBlock, strong_counter = 1, weak_counter = 0, control_ptr = None\<rparr> \<and>
     UseCount h s1 = Inr 1 \<and> Get h = None \<and> \<not> operator_bool h \<and>
     (\<exists>s2. SharedPtr_dtor h s1 = Inr s2 \<and> blocks s2 (next_block s0) = None \<and>
        events s2 = events s0 @ [BlockDeleted (next_block s0)] \<and> objects s2 = objects s0)"
proof -
  from assms have rel: "(case base_block this of None \<Rightarrow> Inr s
      | Some b \<Rightarrow> DecreaseStrongCounter b s) = Inr s0"
    by (auto simp: Reset_def bindE_eq_Inr)
  let ?cb = "\<lparr>kind = PtrControlBlock, strong_counter = 1, weak_counter = 0, control_ptr = None\<rparr>"
  let ?s1 = "s0\<lparr>blocks := (blocks s0)(next_block s0 \<mapsto> ?cb), next_block := next_block s0 + 1\<rparr>"
  let ?h = "\<lparr>base_block = Some (next_block s0), observed_ptr = None\<rparr>"
  have ctor: "Reset_ptr this None s = Inr (?h, ?s1)"
    using rel by (simp add: Reset_ptr_def new_block_def)
  have "\<exists>s2. DecreaseStrongCounter (next_block s0) ?s1 = Inr s2 \<and>
           objects s2 = objects ?s1 \<and>
           events s2 = events ?s1 @
             (if weak_counter ?cb = 0 then [BlockDeleted (next_block s0)] else []) \<and>
           blocks s2 = (if weak_counter ?cb = 0 then (blocks ?s1)(next_block s0 := None)
                        else (blocks ?s1)(next_block s0 \<mapsto>
                               ?cb\<lparr>strong_counter := 0, control_ptr := None\<rparr>)) \<and>
           next_block s2 = next_block ?s1 \<and> next_object s2 = next_object ?s1"
    by (rule DecreaseStrongCounter_last_null) simp_all
  then obtain s2 where "DecreaseStrongCounter (next_block s0) ?s1 = Inr s2"
    "objects s2 = objects s0" "events s2 = events s0 @ [BlockDeleted (next_block s0)]"
    "blocks s2 (next_block s0) = None"
    by auto
  then show ?thesis
    using ctor
    by (simp add: UseCount_def GetStrongCounter_def Get_def operator_bool_def SharedPtr_dtor_def)
qed

text \<open>
  \<^verbatim>\<open>Reset(Y* ptr)\<close> does not call \<^verbatim>\<open>InitWeakThis\<close>, so the object it takes over stays unbound:
  \<^verbatim>\<open>SharedPtr<T> x; x.Reset(new T); ~x\<close> for a class with the mixin ends in its destructor
  reaching through the null \<^verbatim>\<open>weak_this_.base_block_\<close>.
\<close>

lemma Reset_ptr_leaves_unbound:
  "(let (p, s1) = new_T True 7 empty_heap
    in bindE (Reset_ptr SharedPtr_default p s1) (\<lambda>(x, s2). SharedPtr_dtor x s2)) =
   Inl NullDeref"
  by (simp add: new_T_def construct_T_def empty_heap_def Reset_ptr_def SharedPtr_default_def
      new_block_def SharedPtr_dtor_def DecreaseStrongCounter_def release_object_def
      destroy_T_def EnableSharedFromThis_dtor_def WeakPtr_default_def null_handle_def
      set_block_def)

subsection \<open>Unfolding everything, for evaluation on concrete states\<close>

lemmas eval_defs =
  demo_heap_def empty_heap_def handle_group_def in_group_def group_heap_def refs_def slot_def
  destroy_count_def observe_def init_raw_def init_make_def MakeShared_def new_T_def
  construct_T_def new_block_def SharedPtr_raw_def SharedPtr_copy_def SharedPtr_move_def
  SharedPtr_alias_def SharedPtr_copy_assign_def SharedPtr_move_assign_def SharedPtr_dtor_def
  Reset_def InitWeakThis_def WeakPtr_copy_def
  WeakPtr_move_assign_def WeakPtr_dtor_def WeakPtr_default_def SharedPtr_default_def
  null_handle_def IncreaseStrongCounter_def IncreaseWeakCounter_def DecreaseWeakCounter_def
  BruteDecreaseWeakCounter_def DecreaseStrongCounter_def release_object_def destroy_T_def
  EnableSharedFromThis_dtor_def set_block_def log_event_def delete_this_def UseCount_def
  GetStrongCounter_def deref_def operator_bool_def Get_def Let_def

text \<open>
  The small heap used in the examples is the one that the raw-pointer constructor builds
  from the empty heap around a new object.
\<close>

lemma init_raw_demo_heap:
  "init_raw True 5 empty_heap =
     Inr ([Some \<lparr>base_block = Some 0, observed_ptr = Some 0\<rparr>], demo_heap 1 1 True) \<and>
   init_raw False 5 empty_heap =
     Inr ([Some \<lparr>base_block = Some 0, observed_ptr = Some 0\<rparr>], demo_heap 1 0 False)"
  by (simp add: eval_defs)

subsection \<open>Promotion of a weak handle\<close>

text \<open>
  \<^verbatim>\<open>InitWeakThis\<close> on a live object of a class with the mixin leaves the object's \<^verbatim>\<open>weak_this_\<close>
  equal to the weak handle built from the strong one. Every constructor passes its own
  observed pointer, so a bound \<^verbatim>\<open>weak_this_\<close> observes the object that holds it.
\<close>

lemma InitWeakThis_binds:
  assumes "InitWeakThis this (Some a) s = Inr s'"
  shows "\<exists>ob. objects s' a = Some ob \<and>
           weak_this ob =
             Some \<lparr>base_block = base_block this, observed_ptr = observed_ptr this\<rparr>"
proof -
  from assms obtain tmp s1 where c: "WeakPtr_copy this s = Inr (tmp, s1)"
    by (auto simp: InitWeakThis_def bindE_eq_Inr)
  then have tmp: "tmp = \<lparr>base_block = base_block this, observed_ptr = observed_ptr this\<rparr>"
    by (auto simp: WeakPtr_copy_def Let_def bindE_eq_Inr split: option.splits)
  from assms c obtain ob w s3 where
    "s' = s3\<lparr>objects := (objects s3)(a \<mapsto> ob\<lparr>weak_this := Some tmp\<rparr>)\<rparr>"
    by (auto simp: InitWeakThis_def WeakPtr_move_assign_def bindE_eq_Inr
        split: option.splits)
  then show ?thesis
    using tmp by simp
qed

text \<open>
  Rebinding a \<^verbatim>\<open>weak_this_\<close> that is already bound to the same block and object, while the
  strong counter is not zero: the weak counter goes up and down again and the heap is as
  before.
\<close>

lemma InitWeakThis_rebind:
  assumes "blocks s b = Some cb" "strong_counter cb \<noteq> 0" "objects s a = Some ob"
    "weak_this ob = Some \<lparr>base_block = Some b, observed_ptr = Some a\<rparr>"
  shows "InitWeakThis \<lparr>base_block = Some b, observed_ptr = Some a\<rparr> (Some a) s = Inr s"
proof -
  have "ob\<lparr>weak_this := Some \<lparr>base_block = Some b, observed_ptr = Some a\<rparr>\<rparr> = ob"
    using assms(4) by simp
  then have "(objects s)(a \<mapsto>
      ob\<lparr>weak_this := Some \<lparr>base_block = Some b, observed_ptr = Some a\<rparr>\<rparr>) = objects s"
    using assms(3) by (simp add: fun_upd_idem_iff)
  moreover have "(blocks s)(b \<mapsto> cb) = blocks s"
    using assms(1) by (simp add: fun_upd_idem_iff)
  ultimately show ?thesis
    using assms
    by (simp add: InitWeakThis_def WeakPtr_copy_def IncreaseWeakCounter_def
        WeakPtr_move_assign_def DecreaseWeakCounter_def WeakPtr_dtor_def null_handle_def
        set_block_def Let_def)
qed

text \<open>
  \<^verbatim>\<open>Lock\<close> on an expired weak handle, for every handle type; on a weak handle that is not
  expired, for a handle type without the mixin and for one with the mixin whose weak
  handle observes an object bound to the same block.
\<close>

lemma Lock_expired:
  assumes "base_block w = None \<or>
    (\<exists>b cb. base_block w = Some b \<and> blocks s b = Some cb \<and> strong_counter cb = 0)"
  shows "Lock esft w s = Inr (SharedPtr_default, s)"
  using assms
  by (auto simp: Lock_def Expired_def UseCount_def GetStrongCounter_def)

lemma Lock_without_mixin:
  assumes "base_block w = Some b" "blocks s b = Some cb" "strong_counter cb \<noteq> 0"
  shows "Lock False w s =
    Inr (\<lparr>base_block = Some b, observed_ptr = observed_ptr w\<rparr>,
         set_block b (cb\<lparr>strong_counter := strong_counter cb + 1\<rparr>) s)"
  using assms
  by (simp add: Lock_def Expired_def UseCount_def GetStrongCounter_def
      IncreaseStrongCounter_def SharedPtr_move_def SharedPtr_dtor_def SharedPtr_default_def
      Let_def)

lemma Lock_with_mixin:
  assumes "base_block w = Some b" "observed_ptr w = Some a" "blocks s b = Some cb"
    "strong_counter cb \<noteq> 0" "strong_counter cb + 1 \<noteq> 0"
    "objects s a = Some ob" "weak_this ob = Some w"
  shows "Lock True w s =
    Inr (\<lparr>base_block = Some b, observed_ptr = Some a\<rparr>,
         set_block b (cb\<lparr>strong_counter := strong_counter cb + 1\<rparr>) s)"
proof -
  let ?s1 = "set_block b (cb\<lparr>strong_counter := strong_counter cb + 1\<rparr>) s"
  let ?h = "\<lparr>base_block = Some b, observed_ptr = Some a\<rparr>"
  have w: "w = ?h"
    using assms(1,2) by simp
  have "InitWeakThis ?h (Some a) ?s1 = Inr ?s1"
    using assms(5,6,7) w
    by (intro InitWeakThis_rebind
        [where cb = "cb\<lparr>strong_counter := strong_counter cb + 1\<rparr>" and ob = ob])
      (simp_all add: set_block_def)
  then show ?thesis
    using assms(1-4)
    by (simp add: Lock_def Expired_def UseCount_def GetStrongCounter_def
        IncreaseStrongCounter_def SharedPtr_move_def SharedPtr_dtor_def SharedPtr_default_def
        Let_def)
qed

text \<open>
  The constructor from a weak handle raises \<open>BadWeakPtr\<close> exactly if the weak handle is
  empty or its block's strong counter is zero, and otherwise adds one to the strong
  counter and copies both pointers; it never calls \<^verbatim>\<open>InitWeakThis\<close>.
\<close>

lemma SharedPtr_from_weak_cases:
  "(base_block w = None \<longrightarrow> SharedPtr_from_weak w s = Inl BadWeakPtr) \<and>
   (base_block w = Some b \<and> blocks s b = Some cb \<and> strong_counter cb = 0 \<longrightarrow>
      SharedPtr_from_weak w s = Inl BadWeakPtr) \<and>
   (base_block w = Some b \<and> blocks s b = Some cb \<and> strong_counter cb \<noteq> 0 \<longrightarrow>
      SharedPtr_from_weak w s =
        Inr (\<lparr>base_block = Some b, observed_ptr = observed_ptr w\<rparr>,
             set_block b (cb\<lparr>strong_counter := strong_counter cb + 1\<rparr>) s))"
  by (auto simp: SharedPtr_from_weak_def Expired_def UseCount_def GetStrongCounter_def
      IncreaseStrongCounter_def Let_def)

text \<open>
  \<^verbatim>\<open>Lock\<close> with the mixin on a weak handle whose object has never been bound, as after
  \<^verbatim>\<open>SharedPtr<T> sp; sp.Reset(new T); WeakPtr<T> w(sp);\<close>: the move into the returned handle
  binds the object's \<^verbatim>\<open>weak_this_\<close>, so the weak counter goes up by one as well.
\<close>

lemma Lock_binds_unbound_object:
  "(let (p, s0) = new_T True 5 empty_heap
    in bindE (Reset_ptr SharedPtr_default p s0) (\<lambda>(sp, s1). WeakPtr_copy sp s1)) =
     Inr (\<lparr>base_block = Some 0, observed_ptr = Some 0\<rparr>,
          \<lparr>blocks = [0 \<mapsto> \<lparr>kind = PtrControlBlock, strong_counter = 1, weak_counter = 1,
                           control_ptr = Some 0\<rparr>],
           objects = [0 \<mapsto> \<lparr>payload = 5, weak_this = Some WeakPtr_default\<rparr>],
           events = [], next_block = 1, next_object = 1\<rparr>) \<and>
   (let (p, s0) = new_T True 5 empty_heap
    in bindE (Reset_ptr SharedPtr_default p s0) (\<lambda>(sp, s1).
         bindE (WeakPtr_copy sp s1) (\<lambda>(w, s2). Lock True w s2))) =
     Inr (\<lparr>base_block = Some 0, observed_ptr = Some 0\<rparr>, demo_heap 2 2 True)"
  by (simp add: Reset_ptr_def Lock_def Expired_def eval_defs)

section \<open>Programs that keep to non-empty sources and non-null aliases\<close>

text \<open>
  From a state in which the live handle variables form a group around block \<open>b\<close> and
  object \<open>a\<close>, every program of copy and move constructions, copy and move assignments,
  \<^verbatim>\<open>Reset()\<close> calls and destructions on the variables runs to the end, and after each of its
  prefixes: \<^verbatim>\<open>UseCount()\<close> on every live handle that
  refers to \<open>b\<close> is the number of live handles that refer to \<open>b\<close>; every live handle is
  empty or refers to \<open>b\<close>; the destructor of \<open>a\<close> has run once if no handle refers to \<open>b\<close>
  any more and not at all otherwise, so it runs exactly at the step that takes the number
  to zero. The handle left behind by a move is empty, has \<^verbatim>\<open>UseCount()\<close> zero, and destroying
  it leaves the heap as it is. The number of handle variables stays below \<open>2\<^sup>6\<^sup>4\<close>, as it
  does in a 64-bit address space.
\<close>

lemma group_program_counts:
  assumes "handle_group esft b a (hs, s)" "prog_ok esft ops (hs, s)"
    "length hs + length ops < 2 ^ 64"
  shows "(\<forall>k \<le> length ops.
            \<exists>hs' s'. run esft (take k ops) (hs, s) = Inr (hs', s') \<and>
              (\<forall>h. Some h \<in> set hs' \<and> base_block h = Some b \<longrightarrow>
                 (\<exists>n. UseCount h s' = Inr n \<and> unat n = refs b hs')) \<and>
              (\<forall>h. Some h \<in> set hs' \<longrightarrow> base_block h = None \<or> base_block h = Some b) \<and>
              destroy_count a (events s') = (if refs b hs' = 0 then 1 else 0) \<and>
              (objects s' a = None \<longleftrightarrow> refs b hs' = 0)) \<and>
         (SharedPtr_move esft h0 s0 = Inr (h1, h2, s1) \<longrightarrow>
            h2 = \<lparr>base_block = None, observed_ptr = None\<rparr> \<and> UseCount h2 s1 = Inr 0 \<and>
            SharedPtr_dtor h2 s1 = Inr s1)"
proof (intro conjI allI impI)
  fix k
  assume "k \<le> length ops"
  then have len: "length hs + length (take k ops) < 2 ^ 64"
    using assms(3) by simp
  from run_group [OF assms(1) prog_ok_take [OF assms(2)] len]
  obtain hs' s' where r: "run esft (take k ops) (hs, s) = Inr (hs', s')"
    and g: "handle_group esft b a (hs', s')"
    by blast
  have "\<forall>h. Some h \<in> set hs' \<and> base_block h = Some b \<longrightarrow>
      (\<exists>n. UseCount h s' = Inr n \<and> unat n = refs b hs')"
    using handle_group_UseCount [OF g] by blast
  moreover have "\<forall>h. Some h \<in> set hs' \<longrightarrow> base_block h = None \<or> base_block h = Some b"
    using g by (auto simp: handle_group_iff in_group_def)
  ultimately show "\<exists>hs' s'. run esft (take k ops) (hs, s) = Inr (hs', s') \<and>
      (\<forall>h. Some h \<in> set hs' \<and> base_block h = Some b \<longrightarrow>
         (\<exists>n. UseCount h s' = Inr n \<and> unat n = refs b hs')) \<and>
      (\<forall>h. Some h \<in> set hs' \<longrightarrow> base_block h = None \<or> base_block h = Some b) \<and>
      destroy_count a (events s') = (if refs b hs' = 0 then 1 else 0) \<and>
      (objects s' a = None \<longleftrightarrow> refs b hs' = 0)"
    using r handle_group_destroy_count [OF g] handle_group_object [OF g]
    by (intro exI [of _ hs'] exI [of _ s']) simp
next
  assume "SharedPtr_move esft h0 s0 = Inr (h1, h2, s1)"
  then show "h2 = \<lparr>base_block = None, observed_ptr = None\<rparr>" "UseCount h2 s1 = Inr 0"
    "SharedPtr_dtor h2 s1 = Inr s1"
    using moved_from_is_inert by blast+
qed

text \<open>
  The state after \<^verbatim>\<open>SharedPtr<T> x0(new T)\<close> for a class with the mixin, and the program
  \<^verbatim>\<open>x1(x0); x2(std::move(x1)); x1 = x2; x0 = std::move(x1); ~x1; ~x2; x0.Reset()\<close>.
\<close>

lemma group_program_counts_example:
  "handle_group True 0 0
     ([Some \<lparr>base_block = Some 0, observed_ptr = Some 0\<rparr>], demo_heap 1 1 True) \<and>
   prog_ok True
     [Copy 0, Move 1, CopyAssign 1 2, MoveAssign 0 1, Destroy 1, Destroy 2, ResetOp 0]
     ([Some \<lparr>base_block = Some 0, observed_ptr = Some 0\<rparr>], demo_heap 1 1 True) \<and>
   map_sum id (observe 0)
     (run True [Copy 0, Move 1]
        ([Some \<lparr>base_block = Some 0, observed_ptr = Some 0\<rparr>], demo_heap 1 1 True)) =
     Inr ([Some (Inr 2, Inr 5, True), Some (Inr 0, Inl NullDeref, False),
           Some (Inr 2, Inr 5, True)], 0) \<and>
   map_sum id (observe 0)
     (run True [Copy 0, Move 1, CopyAssign 1 2]
        ([Some \<lparr>base_block = Some 0, observed_ptr = Some 0\<rparr>], demo_heap 1 1 True)) =
     Inr ([Some (Inr 3, Inr 5, True), Some (Inr 3, Inr 5, True),
           Some (Inr 3, Inr 5, True)], 0) \<and>
   map_sum id (observe 0)
     (run True [Copy 0, Move 1, CopyAssign 1 2, MoveAssign 0 1, Destroy 1, Destroy 2]
        ([Some \<lparr>base_block = Some 0, observed_ptr = Some 0\<rparr>], demo_heap 1 1 True)) =
     Inr ([Some (Inr 1, Inr 5, True), None, None], 0) \<and>
   map_sum id (observe 0)
     (run True [Copy 0, Move 1, CopyAssign 1 2, MoveAssign 0 1, Destroy 1, Destroy 2, ResetOp 0]
        ([Some \<lparr>base_block = Some 0, observed_ptr = Some 0\<rparr>], demo_heap 1 1 True)) =
     Inr ([Some (Inr 0, Inl NullDeref, False), None, None], 1)"
  using group_program_counts [where esft = True and b = 0 and a = 0
      and hs = "[Some \<lparr>base_block = Some 0, observed_ptr = Some 0\<rparr>]"
      and s = "demo_heap 1 1 True"
      and ops = "[Copy 0, Move 1, CopyAssign 1 2, MoveAssign 0 1, Destroy 1, Destroy 2,
                  ResetOp 0]"
      and ?h0.0 = "\<lparr>base_block = Some 0, observed_ptr = Some 0\<rparr>"
      and ?s0.0 = "demo_heap 1 1 True"
      and ?h1.0 = "\<lparr>base_block = Some 0, observed_ptr = Some 0\<rparr>"
      and ?h2.0 = "\<lparr>base_block = None, observed_ptr = None\<rparr>"
      and ?s1.0 = "demo_heap 1 1 True"]
  by (simp add: eval_defs)

text \<open>
  Aliasing. In a group whose handle type has no mixin, the aliasing constructor applied
  to a handle on \<open>b\<close> and any pointer \<open>p\<close> gives a handle on \<open>b\<close> whose \<^verbatim>\<open>Get()\<close> is \<open>p\<close>, with
  \<^verbatim>\<open>UseCount()\<close> one more than before; and after every program run from there, if some live
  handle still refers to \<open>b\<close> (the aliasing one or any other), the object \<open>a\<close> exists and
  its destructor has not run. Where the aliasing handle type has the mixin and \<open>p\<close> points
  to a live object whose \<^verbatim>\<open>weak_this_\<close> is unbound or bound to \<open>b\<close>, the constructor likewise
  gives a handle on \<open>b\<close> observing \<open>p\<close> with the strong counter one higher, destroys nothing,
  and rebinds that object's \<^verbatim>\<open>weak_this_\<close>.
\<close>

lemma aliasing_keeps_alive:
  "(handle_group False b a (hs, s) \<and> slot hs i = Inr src \<and> base_block src = Some b \<and>
      length hs + 1 < 2 ^ 64 \<longrightarrow>
    (\<exists>s1 n n1.
       SharedPtr_alias False src p s = Inr (\<lparr>base_block = Some b, observed_ptr = p\<rparr>, s1) \<and>
       step False (Alias i p) (hs, s) =
         Inr (hs @ [Some \<lparr>base_block = Some b, observed_ptr = p\<rparr>], s1) \<and>
       Get \<lparr>base_block = Some b, observed_ptr = p\<rparr> = p \<and>
       UseCount src s = Inr n \<and>
       UseCount \<lparr>base_block = Some b, observed_ptr = p\<rparr> s1 = Inr n1 \<and>
       unat n1 = unat n + 1 \<and>
       (\<forall>ops. prog_ok False ops (hs @ [Some \<lparr>base_block = Some b, observed_ptr = p\<rparr>], s1) \<and>
              length hs + 1 + length ops < 2 ^ 64 \<longrightarrow>
          (\<exists>hs' s'. run False ops
                      (hs @ [Some \<lparr>base_block = Some b, observed_ptr = p\<rparr>], s1) =
                    Inr (hs', s') \<and>
             ((\<exists>h. Some h \<in> set hs' \<and> base_block h = Some b) \<longrightarrow>
                objects s' a \<noteq> None \<and> destroy_count a (events s') = 0))))) \<and>
   (base_block src = Some b \<and> blocks s b = Some cb \<and>
      unat (strong_counter cb) < 2 ^ 64 - 1 \<and>
      objects s q = Some ob \<and> weak_this ob = Some w \<and>
      (base_block w = None \<or> base_block w = Some b) \<longrightarrow>
    (\<exists>s1. SharedPtr_alias True src (Some q) s =
             Inr (\<lparr>base_block = Some b, observed_ptr = Some q\<rparr>, s1) \<and>
           UseCount \<lparr>base_block = Some b, observed_ptr = Some q\<rparr> s1 =
             Inr (strong_counter cb + 1) \<and>
           unat (strong_counter cb + 1) = unat (strong_counter cb) + 1 \<and>
           events s1 = events s \<and>
           objects s1 =
             (objects s)(q \<mapsto> ob\<lparr>weak_this :=
                Some \<lparr>base_block = Some b, observed_ptr = Some q\<rparr>\<rparr>)))"
proof (intro conjI impI)
  assume hyp: "handle_group False b a (hs, s) \<and> slot hs i = Inr src \<and>
      base_block src = Some b \<and> length hs + 1 < 2 ^ 64"
  then have inv: "handle_group False b a (hs, s)" and sl: "slot hs i = Inr src"
    and src: "base_block src = Some b" and bound: "length hs + 1 < 2 ^ 64"
    by simp_all
  let ?al = "\<lparr>base_block = Some b, observed_ptr = p\<rparr>"
  from step_Alias_group [OF inv sl bound, of p] src
  obtain s1 where st: "step False (Alias i p) (hs, s) = Inr (hs @ [Some ?al], s1)"
    and g1: "handle_group False b a (hs @ [Some ?al], s1)"
    by auto
  from st sl src have al: "SharedPtr_alias False src p s = Inr (?al, s1)"
    by (auto simp: bindE_eq_Inr dest: SharedPtr_alias_handle)
  from handle_group_UseCount [OF inv slot_in_set [OF sl] src]
  obtain n where n: "UseCount src s = Inr n" "unat n = refs b hs"
    by blast
  from handle_group_UseCount [OF g1, of ?al]
  obtain n1 where n1: "UseCount ?al s1 = Inr n1" "unat n1 = refs b hs + 1"
    by auto
  have "\<exists>hs' s'. run False ops (hs @ [Some ?al], s1) = Inr (hs', s') \<and>
      ((\<exists>h. Some h \<in> set hs' \<and> base_block h = Some b) \<longrightarrow>
         objects s' a \<noteq> None \<and> destroy_count a (events s') = 0)"
    if "prog_ok False ops (hs @ [Some ?al], s1)" "length hs + 1 + length ops < 2 ^ 64"
    for ops
  proof -
    have len: "length (hs @ [Some ?al]) + length ops < 2 ^ 64"
      using that(2) by simp
    from run_group [OF g1 that(1) len] obtain hs' s' where
      r: "run False ops (hs @ [Some ?al], s1) = Inr (hs', s')"
      and g: "handle_group False b a (hs', s')"
      by blast
    have "objects s' a \<noteq> None \<and> destroy_count a (events s') = 0"
      if "\<exists>h. Some h \<in> set hs' \<and> base_block h = Some b"
      using that refs_pos [of _ hs' b] handle_group_destroy_count [OF g]
        handle_group_object [OF g]
      by auto
    with r show ?thesis by blast
  qed
  then show "\<exists>s1 n n1.
       SharedPtr_alias False src p s = Inr (?al, s1) \<and>
       step False (Alias i p) (hs, s) = Inr (hs @ [Some ?al], s1) \<and>
       Get ?al = p \<and> UseCount src s = Inr n \<and> UseCount ?al s1 = Inr n1 \<and>
       unat n1 = unat n + 1 \<and>
       (\<forall>ops. prog_ok False ops (hs @ [Some ?al], s1) \<and>
              length hs + 1 + length ops < 2 ^ 64 \<longrightarrow>
          (\<exists>hs' s'. run False ops (hs @ [Some ?al], s1) = Inr (hs', s') \<and>
             ((\<exists>h. Some h \<in> set hs' \<and> base_block h = Some b) \<longrightarrow>
                objects s' a \<noteq> None \<and> destroy_count a (events s') = 0)))"
    using al st n n1 by (auto simp: Get_def)
next
  assume "base_block src = Some b \<and> blocks s b = Some cb \<and>
      unat (strong_counter cb) < 2 ^ 64 - 1 \<and>
      objects s q = Some ob \<and> weak_this ob = Some w \<and>
      (base_block w = None \<or> base_block w = Some b)"
  then show "\<exists>s1. SharedPtr_alias True src (Some q) s =
             Inr (\<lparr>base_block = Some b, observed_ptr = Some q\<rparr>, s1) \<and>
           UseCount \<lparr>base_block = Some b, observed_ptr = Some q\<rparr> s1 =
             Inr (strong_counter cb + 1) \<and>
           unat (strong_counter cb + 1) = unat (strong_counter cb) + 1 \<and>
           events s1 = events s \<and>
           objects s1 =
             (objects s)(q \<mapsto> ob\<lparr>weak_this :=
                Some \<lparr>base_block = Some b, observed_ptr = Some q\<rparr>\<rparr>)"
    by (intro alias_mixin [where w = w]) simp_all
qed

lemma aliasing_keeps_alive_example:
  "handle_group False 0 0
     ([Some \<lparr>base_block = Some 0, observed_ptr = Some 0\<rparr>], demo_heap 1 0 False) \<and>
   slot [Some \<lparr>base_block = Some 0, observed_ptr = Some 0\<rparr>] 0 =
     Inr \<lparr>base_block = Some 0, observed_ptr = Some 0\<rparr> \<and>
   SharedPtr_alias False \<lparr>base_block = Some 0, observed_ptr = Some 0\<rparr> (Some 7)
       (demo_heap 1 0 False) =
     Inr (\<lparr>base_block = Some 0, observed_ptr = Some 7\<rparr>, demo_heap 2 0 False) \<and>
   UseCount \<lparr>base_block = Some 0, observed_ptr = Some 7\<rparr> (demo_heap 2 0 False) = Inr 2 \<and>
   map_sum id (\<lambda>st. (fst st, objects (snd st) 0 \<noteq> None, events (snd st)))
     (run False [Destroy 0]
        ([Some \<lparr>base_block = Some 0, observed_ptr = Some 0\<rparr>,
          Some \<lparr>base_block = Some 0, observed_ptr = Some 7\<rparr>], demo_heap 2 0 False)) =
     Inr ([None, Some \<lparr>base_block = Some 0, observed_ptr = Some 7\<rparr>], True, []) \<and>
   map_sum id (\<lambda>st. (fst st, objects (snd st) 0 \<noteq> None, events (snd st)))
     (run False [Destroy 0, Destroy 1]
        ([Some \<lparr>base_block = Some 0, observed_ptr = Some 0\<rparr>,
          Some \<lparr>base_block = Some 0, observed_ptr = Some 7\<rparr>], demo_heap 2 0 False)) =
     Inr ([None, None], False, [ObjectDeleted 0, BlockDeleted 0]) \<and>
   objects (demo_heap 1 1 True) 0 =
     Some \<lparr>payload = 5, weak_this = Some \<lparr>base_block = Some 0, observed_ptr = Some 0\<rparr>\<rparr> \<and>
   SharedPtr_alias True \<lparr>base_block = Some 0, observed_ptr = Some 0\<rparr> (Some 0)
       (demo_heap 1 1 True) =
     Inr (\<lparr>base_block = Some 0, observed_ptr = Some 0\<rparr>, demo_heap 2 1 True)"
  using aliasing_keeps_alive [where b = 0 and a = 0 and i = 0 and p = "Some 7"
      and hs = "[Some \<lparr>base_block = Some 0, observed_ptr = Some 0\<rparr>]"
      and s = "demo_heap 1 0 False"
      and src = "\<lparr>base_block = Some 0, observed_ptr = Some 0\<rparr>"
      and cb = "\<lparr>kind = PtrControlBlock, strong_counter = 1, weak_counter = 0,
                 control_ptr = Some 0\<rparr>"
      and q = 0 and ob = "\<lparr>payload = 5, weak_this = None\<rparr>" and w = null_handle]
    aliasing_keeps_alive [where b = 0 and a = 0 and i = 0 and p = "Some 0"
      and hs = "[Some \<lparr>base_block = Some 0, observed_ptr = Some 0\<rparr>]"
      and s = "demo_heap 1 1 True"
      and src = "\<lparr>base_block = Some 0, observed_ptr = Some 0\<rparr>"
      and cb = "\<lparr>kind = PtrControlBlock, strong_counter = 1, weak_counter = 1,
                 control_ptr = Some 0\<rparr>"
      and q = 0
      and ob = "\<lparr>payload = 5, weak_this = Some \<lparr>base_block = Some 0, observed_ptr = Some 0\<rparr>\<rparr>"
      and w = "\<lparr>base_block = Some 0, observed_ptr = Some 0\<rparr>"]
  by (simp add: eval_defs)

section \<open>The claims\<close>

text \<open>
  C1. With a handle type that has the mixin, the copy and the move constructor applied to a
  moved-from handle call \<^verbatim>\<open>InitWeakThis(nullptr)\<close>: after \<^verbatim>\<open>SharedPtr<T> x0(new T)\<close> the
  programs \<^verbatim>\<open>x1(std::move(x0)); x2(x0)\<close> and \<^verbatim>\<open>x1(std::move(x0)); x2(std::move(x0))\<close> pass
  their first step, which leaves \<^verbatim>\<open>x0\<close> empty, and fail at the second. With a handle type
  without the mixin both run to the end and only \<^verbatim>\<open>x1\<close> refers to the block.
\<close>

theorem C1_copy_of_moved_from_with_mixin:
  "bindE (init_raw True 5 empty_heap) (run True [Move 0]) =
     Inr ([Some \<lparr>base_block = None, observed_ptr = None\<rparr>,
           Some \<lparr>base_block = Some 0, observed_ptr = Some 0\<rparr>], demo_heap 1 1 True) \<and>
   bindE (init_raw True 5 empty_heap) (run True [Move 0, Copy 0]) = Inl NullDeref \<and>
   bindE (init_raw True 5 empty_heap) (run True [Move 0, Move 0]) = Inl NullDeref \<and>
   bindE (init_raw False 5 empty_heap) (run False [Move 0, Copy 0]) =
     Inr ([Some \<lparr>base_block = None, observed_ptr = None\<rparr>,
           Some \<lparr>base_block = Some 0, observed_ptr = Some 0\<rparr>,
           Some \<lparr>base_block = None, observed_ptr = None\<rparr>], demo_heap 1 0 False) \<and>
   bindE (init_raw False 5 empty_heap) (run False [Move 0, Move 0]) =
     Inr ([Some \<lparr>base_block = None, observed_ptr = None\<rparr>,
           Some \<lparr>base_block = Some 0, observed_ptr = Some 0\<rparr>,
           Some \<lparr>base_block = None, observed_ptr = None\<rparr>], demo_heap 1 0 False)"
  by (simp add: eval_defs)

text \<open>
  C2. Two-stage release. On a live block, a strong decrement that reaches zero ends the
  managed object (event \<open>ObjectDeleted\<close> for \<^verbatim>\<open>PtrControlBlock\<close>, \<open>ObjectDestructed\<close> for
  \<^verbatim>\<open>ObjectControlBlock\<close>) and then frees the block exactly if the weak counter is zero at
  that point: the block's own weak counter for an object without the mixin, one less for an
  object whose \<^verbatim>\<open>weak_this_\<close> is bound to the block, since its destructor has just given up
  that edge. A \<^verbatim>\<open>PtrControlBlock\<close> around a null pointer has no object to end and is freed
  on the same condition. A strong decrement that does not reach zero destroys and frees
  nothing. A weak
  decrement frees the block exactly if it leaves the weak counter at zero while the strong
  counter is zero, and never touches the object.
\<close>

theorem C2_two_stage_release:
  assumes "blocks s b = Some cb"
  shows "(strong_counter cb = 1 \<and> control_ptr cb = Some a \<and> objects s a = Some ob \<and>
            weak_this ob = None \<longrightarrow>
          (\<exists>s'. DecreaseStrongCounter b s = Inr s' \<and> objects s' a = None \<and>
             events s' = events s @ [release_event (kind cb) a] @
                           (if weak_counter cb = 0 then [BlockDeleted b] else []) \<and>
             (blocks s' b = None \<longleftrightarrow> weak_counter cb = 0))) \<and>
         (strong_counter cb = 1 \<and> control_ptr cb = Some a \<and> objects s a = Some ob \<and>
            weak_this ob = Some w \<and> base_block w = Some b \<longrightarrow>
          (\<exists>s'. DecreaseStrongCounter b s = Inr s' \<and> objects s' a = None \<and>
             events s' = events s @ [release_event (kind cb) a] @
                           (if weak_counter cb - 1 = 0 then [BlockDeleted b] else []) \<and>
             (blocks s' b = None \<longleftrightarrow> weak_counter cb - 1 = 0))) \<and>
         (strong_counter cb = 1 \<and> kind cb = PtrControlBlock \<and> control_ptr cb = None \<longrightarrow>
          (\<exists>s'. DecreaseStrongCounter b s = Inr s' \<and> objects s' = objects s \<and>
             events s' = events s @ (if weak_counter cb = 0 then [BlockDeleted b] else []) \<and>
             (blocks s' b = None \<longleftrightarrow> weak_counter cb = 0))) \<and>
         (strong_counter cb \<noteq> 1 \<longrightarrow>
          (\<exists>s'. DecreaseStrongCounter b s = Inr s' \<and> objects s' = objects s \<and>
             events s' = events s \<and> blocks s' b \<noteq> None)) \<and>
         (\<exists>s'. DecreaseWeakCounter b s = Inr s' \<and> objects s' = objects s \<and>
             events s' = events s @
               (if weak_counter cb - 1 = 0 \<and> strong_counter cb = 0 then [BlockDeleted b]
                else []) \<and>
             (blocks s' b = None \<longleftrightarrow> weak_counter cb - 1 = 0 \<and> strong_counter cb = 0))"
proof (intro conjI impI)
  assume h: "strong_counter cb = 1 \<and> control_ptr cb = Some a \<and> objects s a = Some ob \<and>
            weak_this ob = None"
  then have "\<exists>s'. DecreaseStrongCounter b s = Inr s' \<and>
           objects s' = (objects s)(a := None) \<and>
           events s' = events s @ [release_event (kind cb) a] @
                         (if weak_counter cb = 0 then [BlockDeleted b] else []) \<and>
           blocks s' = (if weak_counter cb = 0 then (blocks s)(b := None)
                        else (blocks s)(b \<mapsto> cb\<lparr>strong_counter := 0, control_ptr := None\<rparr>)) \<and>
           next_block s' = next_block s \<and> next_object s' = next_object s"
    using assms by (intro DecreaseStrongCounter_last_plain [where ob = ob]) simp_all
  then obtain s' where "DecreaseStrongCounter b s = Inr s'"
    "objects s' = (objects s)(a := None)"
    "events s' = events s @ [release_event (kind cb) a] @
                           (if weak_counter cb = 0 then [BlockDeleted b] else [])"
    "blocks s' = (if weak_counter cb = 0 then (blocks s)(b := None)
                        else (blocks s)(b \<mapsto> cb\<lparr>strong_counter := 0, control_ptr := None\<rparr>))"
    by blast
  then show "\<exists>s'. DecreaseStrongCounter b s = Inr s' \<and> objects s' a = None \<and>
             events s' = events s @ [release_event (kind cb) a] @
                           (if weak_counter cb = 0 then [BlockDeleted b] else []) \<and>
             (blocks s' b = None \<longleftrightarrow> weak_counter cb = 0)"
    by simp
next
  assume h: "strong_counter cb = 1 \<and> control_ptr cb = Some a \<and> objects s a = Some ob \<and>
            weak_this ob = Some w \<and> base_block w = Some b"
  then have "\<exists>s'. DecreaseStrongCounter b s = Inr s' \<and>
           objects s' = (objects s)(a := None) \<and>
           events s' = events s @ [release_event (kind cb) a] @
                         (if weak_counter cb - 1 = 0 then [BlockDeleted b] else []) \<and>
           blocks s' = (if weak_counter cb - 1 = 0 then (blocks s)(b := None)
                        else (blocks s)(b \<mapsto> cb\<lparr>strong_counter := 0,
                               weak_counter := weak_counter cb - 1, control_ptr := None\<rparr>)) \<and>
           next_block s' = next_block s \<and> next_object s' = next_object s"
    using assms by (intro DecreaseStrongCounter_last_bound [where w = w and ob = ob]) simp_all
  then obtain s' where "DecreaseStrongCounter b s = Inr s'"
    "objects s' = (objects s)(a := None)"
    "events s' = events s @ [release_event (kind cb) a] @
                           (if weak_counter cb - 1 = 0 then [BlockDeleted b] else [])"
    "blocks s' = (if weak_counter cb - 1 = 0 then (blocks s)(b := None)
                        else (blocks s)(b \<mapsto> cb\<lparr>strong_counter := 0,
                               weak_counter := weak_counter cb - 1, control_ptr := None\<rparr>))"
    by blast
  then show "\<exists>s'. DecreaseStrongCounter b s = Inr s' \<and> objects s' a = None \<and>
             events s' = events s @ [release_event (kind cb) a] @
                           (if weak_counter cb - 1 = 0 then [BlockDeleted b] else []) \<and>
             (blocks s' b = None \<longleftrightarrow> weak_counter cb - 1 = 0)"
    by simp
next
  assume h: "strong_counter cb = 1 \<and> kind cb = PtrControlBlock \<and> control_ptr cb = None"
  then have "\<exists>s'. DecreaseStrongCounter b s = Inr s' \<and>
           objects s' = objects s \<and>
           events s' = events s @ (if weak_counter cb = 0 then [BlockDeleted b] else []) \<and>
           blocks s' = (if weak_counter cb = 0 then (blocks s)(b := None)
                        else (blocks s)(b \<mapsto> cb\<lparr>strong_counter := 0, control_ptr := None\<rparr>)) \<and>
           next_block s' = next_block s \<and> next_object s' = next_object s"
    using assms by (intro DecreaseStrongCounter_last_null) simp_all
  then obtain s' where "DecreaseStrongCounter b s = Inr s'" "objects s' = objects s"
    "events s' = events s @ (if weak_counter cb = 0 then [BlockDeleted b] else [])"
    "blocks s' = (if weak_counter cb = 0 then (blocks s)(b := None)
                        else (blocks s)(b \<mapsto> cb\<lparr>strong_counter := 0, control_ptr := None\<rparr>))"
    by blast
  then show "\<exists>s'. DecreaseStrongCounter b s = Inr s' \<and> objects s' = objects s \<and>
             events s' = events s @ (if weak_counter cb = 0 then [BlockDeleted b] else []) \<and>
             (blocks s' b = None \<longleftrightarrow> weak_counter cb = 0)"
    by simp
next
  assume "strong_counter cb \<noteq> 1"
  then show "\<exists>s'. DecreaseStrongCounter b s = Inr s' \<and> objects s' = objects s \<and>
             events s' = events s \<and> blocks s' b \<noteq> None"
    using assms by (simp add: DecreaseStrongCounter_shared)
next
  from DecreaseWeakCounter_result [OF assms]
  obtain s' where "DecreaseWeakCounter b s = Inr s'" "objects s' = objects s"
    "events s' = events s @
              (if weak_counter cb - 1 = 0 \<and> strong_counter cb = 0 then [BlockDeleted b]
               else [])"
    "blocks s' = (if weak_counter cb - 1 = 0 \<and> strong_counter cb = 0
                        then (blocks s)(b := None)
                        else (blocks s)(b \<mapsto> cb\<lparr>weak_counter := weak_counter cb - 1\<rparr>))"
    by blast
  then show "\<exists>s'. DecreaseWeakCounter b s = Inr s' \<and> objects s' = objects s \<and>
             events s' = events s @
               (if weak_counter cb - 1 = 0 \<and> strong_counter cb = 0 then [BlockDeleted b]
                else []) \<and>
             (blocks s' b = None \<longleftrightarrow> weak_counter cb - 1 = 0 \<and> strong_counter cb = 0)"
    by simp
qed

theorem C2_two_stage_release_witness:
  "blocks (demo_heap 1 1 False) 0 =
     Some \<lparr>kind = PtrControlBlock, strong_counter = 1, weak_counter = 1, control_ptr = Some 0\<rparr> \<and>
   (\<exists>s'. DecreaseStrongCounter 0 (demo_heap 1 1 False) = Inr s' \<and> objects s' 0 = None \<and>
      events s' = [ObjectDeleted 0] \<and> blocks s' 0 \<noteq> None) \<and>
   (\<exists>s'. DecreaseWeakCounter 0 (demo_heap 0 1 False) = Inr s' \<and>
      events s' = [BlockDeleted 0] \<and> blocks s' 0 = None)"
  using C2_two_stage_release [of "demo_heap 1 1 False" 0
      "\<lparr>kind = PtrControlBlock, strong_counter = 1, weak_counter = 1, control_ptr = Some 0\<rparr>"
      0 "\<lparr>payload = 5, weak_this = None\<rparr>"]
    C2_two_stage_release [of "demo_heap 0 1 False" 0
      "\<lparr>kind = PtrControlBlock, strong_counter = 0, weak_counter = 1, control_ptr = Some 0\<rparr>"]
  by (auto simp: demo_heap_def release_event_def)

text \<open>
  C3. With a handle type that has the mixin, \<^verbatim>\<open>Lock\<close> on a weak handle that is not expired
  and observes no object calls \<^verbatim>\<open>InitWeakThis(nullptr)\<close> when it moves the local into the
  returned handle. Such a weak handle comes from
  \<^verbatim>\<open>SharedPtr<T> sp; sp.Reset(static_cast<T*>(nullptr)); WeakPtr<T> w(sp);\<close>: its block has
  strong counter one, so it is not expired. With a handle type without the mixin \<^verbatim>\<open>Lock\<close>
  adds one to the strong counter and gives a handle with the same block and observed
  pointer, and the constructor from a weak handle does so for both handle types.
\<close>

theorem C3_lock_of_null_observer_with_mixin:
  "bindE (Reset_ptr SharedPtr_default None empty_heap) (\<lambda>(sp, s1). WeakPtr_copy sp s1) =
     Inr (\<lparr>base_block = Some 0, observed_ptr = None\<rparr>,
          \<lparr>blocks = [0 \<mapsto> \<lparr>kind = PtrControlBlock, strong_counter = 1, weak_counter = 1,
                           control_ptr = None\<rparr>],
           objects = Map.empty, events = [], next_block = 1, next_object = 0\<rparr>) \<and>
   bindE (Reset_ptr SharedPtr_default None empty_heap) (\<lambda>(sp, s1).
     bindE (WeakPtr_copy sp s1) (\<lambda>(w, s2). Expired w s2)) = Inr False \<and>
   bindE (Reset_ptr SharedPtr_default None empty_heap) (\<lambda>(sp, s1).
     bindE (WeakPtr_copy sp s1) (\<lambda>(w, s2). Lock True w s2)) = Inl NullDeref \<and>
   bindE (Reset_ptr SharedPtr_default None empty_heap) (\<lambda>(sp, s1).
     bindE (WeakPtr_copy sp s1) (\<lambda>(w, s2). Lock False w s2)) =
     Inr (\<lparr>base_block = Some 0, observed_ptr = None\<rparr>,
          \<lparr>blocks = [0 \<mapsto> \<lparr>kind = PtrControlBlock, strong_counter = 2, weak_counter = 1,
                           control_ptr = None\<rparr>],
           objects = Map.empty, events = [], next_block = 1, next_object = 0\<rparr>) \<and>
   bindE (Reset_ptr SharedPtr_default None empty_heap) (\<lambda>(sp, s1).
     bindE (WeakPtr_copy sp s1) (\<lambda>(w, s2). SharedPtr_from_weak w s2)) =
     Inr (\<lparr>base_block = Some 0, observed_ptr = None\<rparr>,
          \<lparr>blocks = [0 \<mapsto> \<lparr>kind = PtrControlBlock, strong_counter = 2, weak_counter = 1,
                           control_ptr = None\<rparr>],
           objects = Map.empty, events = [], next_block = 1, next_object = 0\<rparr>)"
  by (simp add: Reset_ptr_def Lock_def Expired_def SharedPtr_from_weak_def eval_defs)

text \<open>
  C4, as amended. \<^verbatim>\<open>DecreaseStrongCounter\<close> of both block classes decrements once, with
  wrap-around, from every starting value, and the object's destructor runs exactly if the
  result is zero. \<^verbatim>\<open>RefCounted::DecRef\<close> does the same from a non-zero counter only: from
  zero it leaves the counter at zero and calls \<^verbatim>\<open>Deleter::Destroy\<close>.
\<close>

theorem C4_decrement_then_check:
  "(blocks s b = Some cb \<and> control_ptr cb = Some a \<and> objects s a = Some ob \<and>
      (weak_this ob = None \<or> (\<exists>w. weak_this ob = Some w \<and> base_block w = Some b)) \<longrightarrow>
    (\<exists>s'. DecreaseStrongCounter b s = Inr s' \<and>
       (case blocks s' b of
          Some cb' \<Rightarrow> strong_counter cb' = strong_counter cb - 1
        | None \<Rightarrow> strong_counter cb - 1 = 0) \<and>
       destroy_count a (events s') =
         destroy_count a (events s) + (if strong_counter cb - 1 = 0 then 1 else 0))) \<and>
   (counter r \<noteq> 0 \<longrightarrow>
      counter (DecRef r) = counter r - 1 \<and>
      destroy_calls (DecRef r) = destroy_calls r + (if counter r - 1 = 0 then 1 else 0)) \<and>
   (counter r = 0 \<longrightarrow>
      counter (DecRef r) = 0 \<and> destroy_calls (DecRef r) = destroy_calls r + 1)"
proof (intro conjI impI)
  assume h: "blocks s b = Some cb \<and> control_ptr cb = Some a \<and> objects s a = Some ob \<and>
      (weak_this ob = None \<or> (\<exists>w. weak_this ob = Some w \<and> base_block w = Some b))"
  then have hb: "blocks s b = Some cb" and hp: "control_ptr cb = Some a"
    and ho: "objects s a = Some ob"
    by simp_all
  show "\<exists>s'. DecreaseStrongCounter b s = Inr s' \<and>
       (case blocks s' b of
          Some cb' \<Rightarrow> strong_counter cb' = strong_counter cb - 1
        | None \<Rightarrow> strong_counter cb - 1 = 0) \<and>
       destroy_count a (events s') =
         destroy_count a (events s) + (if strong_counter cb - 1 = 0 then 1 else 0)"
  proof (cases "strong_counter cb = 1")
    case False
    then show ?thesis using hb by (simp add: DecreaseStrongCounter_shared)
  next
    case one: True
    show ?thesis
    proof (cases "weak_this ob")
      case None
      from DecreaseStrongCounter_last_plain [OF hb one hp ho None]
      obtain s' where "DecreaseStrongCounter b s = Inr s'"
        "events s' = events s @ [release_event (kind cb) a] @
                           (if weak_counter cb = 0 then [BlockDeleted b] else [])"
        "blocks s' = (if weak_counter cb = 0 then (blocks s)(b := None)
                        else (blocks s)(b \<mapsto> cb\<lparr>strong_counter := 0, control_ptr := None\<rparr>))"
        by blast
      then show ?thesis using one by simp
    next
      case (Some w)
      with h have bw: "base_block w = Some b" by simp
      from DecreaseStrongCounter_last_bound [OF hb one hp ho Some bw]
      obtain s' where "DecreaseStrongCounter b s = Inr s'"
        "events s' = events s @ [release_event (kind cb) a] @
                           (if weak_counter cb - 1 = 0 then [BlockDeleted b] else [])"
        "blocks s' = (if weak_counter cb - 1 = 0 then (blocks s)(b := None)
                        else (blocks s)(b \<mapsto> cb\<lparr>strong_counter := 0,
                               weak_counter := weak_counter cb - 1, control_ptr := None\<rparr>))"
        by blast
      then show ?thesis using one by simp
    qed
  qed
next
  assume "counter r \<noteq> 0"
  then show "counter (DecRef r) = counter r - 1"
    by (simp add: DecRef_def RefCount_def SimpleCounter_RefCount_def SimpleCounter_DecRef_def
        Destroy_def Let_def)
next
  assume "counter r \<noteq> 0"
  then show "destroy_calls (DecRef r) = destroy_calls r + (if counter r - 1 = 0 then 1 else 0)"
    by (simp add: DecRef_def RefCount_def SimpleCounter_RefCount_def SimpleCounter_DecRef_def
        Destroy_def Let_def)
next
  assume "counter r = 0"
  then show "counter (DecRef r) = 0"
    by (simp add: DecRef_def RefCount_def SimpleCounter_RefCount_def Destroy_def)
next
  assume "counter r = 0"
  then show "destroy_calls (DecRef r) = destroy_calls r + 1"
    by (simp add: DecRef_def RefCount_def SimpleCounter_RefCount_def Destroy_def)
qed

theorem C4_decrement_then_check_witness:
  "blocks (demo_heap 1 0 False) 0 =
     Some \<lparr>kind = PtrControlBlock, strong_counter = 1, weak_counter = 0, control_ptr = Some 0\<rparr> \<and>
   (\<exists>s'. DecreaseStrongCounter 0 (demo_heap 1 0 False) = Inr s' \<and>
      destroy_count 0 (events s') = 1) \<and>
   (\<exists>s'. DecreaseStrongCounter 0 (demo_heap 0 0 True) = Inr s' \<and>
      map_option strong_counter (blocks s' 0) = Some 18446744073709551615 \<and>
      destroy_count 0 (events s') = 0) \<and>
   DecRef \<lparr>counter = 2, destroy_calls = 0\<rparr> = \<lparr>counter = 1, destroy_calls = 0\<rparr> \<and>
   DecRef \<lparr>counter = 1, destroy_calls = 0\<rparr> = \<lparr>counter = 0, destroy_calls = 1\<rparr> \<and>
   DecRef \<lparr>counter = 0, destroy_calls = 1\<rparr> = \<lparr>counter = 0, destroy_calls = 2\<rparr>"
  using C4_decrement_then_check [of "demo_heap 1 0 False" 0
      "\<lparr>kind = PtrControlBlock, strong_counter = 1, weak_counter = 0, control_ptr = Some 0\<rparr>"
      0 "\<lparr>payload = 5, weak_this = None\<rparr>" "\<lparr>counter = 2, destroy_calls = 0\<rparr>"]
    C4_decrement_then_check [of "demo_heap 0 0 True" 0
      "\<lparr>kind = PtrControlBlock, strong_counter = 0, weak_counter = 0, control_ptr = Some 0\<rparr>"
      0 "\<lparr>payload = 5, weak_this = Some \<lparr>base_block = Some 0, observed_ptr = Some 0\<rparr>\<rparr>"
      "\<lparr>counter = 1, destroy_calls = 0\<rparr>"]
    C4_decrement_then_check [of "demo_heap 0 0 True" 0
      "\<lparr>kind = PtrControlBlock, strong_counter = 0, weak_counter = 0, control_ptr = Some 0\<rparr>"
      0 "\<lparr>payload = 5, weak_this = Some \<lparr>base_block = Some 0, observed_ptr = Some 0\<rparr>\<rparr>"
      "\<lparr>counter = 0, destroy_calls = 1\<rparr>"]
  by (auto simp: demo_heap_def split: option.splits)

text \<open>
  C4 as stated fails for \<^verbatim>\<open>DecRef\<close> at counter zero: one decrement would leave
  \<open>2\<^sup>6\<^sup>4 - 1\<close> and destroy nothing, but the counter stays zero and the object is destroyed.
\<close>

theorem C4_DecRef_at_zero_counterexample:
  "\<not> (counter (DecRef \<lparr>counter = 0, destroy_calls = 0\<rparr>) = (0 :: size_t) - 1 \<and>
      (destroy_calls (DecRef \<lparr>counter = 0, destroy_calls = 0\<rparr>) = 1 \<longleftrightarrow> (0 :: size_t) - 1 = 0))"
  by (simp add: DecRef_def RefCount_def SimpleCounter_RefCount_def Destroy_def)

text \<open>
  C5, as amended. The default, null, raw-pointer and promoting constructors, \<^verbatim>\<open>Reset()\<close> and
  \<^verbatim>\<open>Reset(ptr)\<close> produce handles with the empty-state property; copy, move, assignment and
  \<^verbatim>\<open>Swap\<close> hand it on from their operands; the aliasing constructor produces it when the
  source handle is non-empty or the given pointer is null, and otherwise produces a handle
  without it.
\<close>

theorem C5_empty_state:
  "empty_state_inv SharedPtr_default \<and> empty_state_inv SharedPtr_nullptr \<and>
   (SharedPtr_raw esft p s = Inr (h, s') \<longrightarrow> empty_state_inv h) \<and>
   (SharedPtr_from_weak w s = Inr (h, s') \<longrightarrow> empty_state_inv h) \<and>
   (Reset this s = Inr (h, s') \<longrightarrow> empty_state_inv h) \<and>
   (Reset_ptr this p s = Inr (h, s') \<longrightarrow> empty_state_inv h) \<and>
   (empty_state_inv other \<and> SharedPtr_copy esft other s = Inr (h, s') \<longrightarrow>
      empty_state_inv h) \<and>
   (empty_state_inv other \<and> SharedPtr_move esft other s = Inr (h, other', s') \<longrightarrow>
      empty_state_inv h \<and> empty_state_inv other') \<and>
   (empty_state_inv this \<and> empty_state_inv other \<and>
      SharedPtr_copy_assign same this other s = Inr (h, s') \<longrightarrow> empty_state_inv h) \<and>
   (empty_state_inv this \<and> empty_state_inv other \<and>
      SharedPtr_move_assign same this other s = Inr (h, other', s') \<longrightarrow>
      empty_state_inv h \<and> empty_state_inv other') \<and>
   (empty_state_inv this \<and> empty_state_inv other \<and> Swap this other = (h, other') \<longrightarrow>
      empty_state_inv h \<and> empty_state_inv other') \<and>
   ((base_block other \<noteq> None \<or> p = None) \<and>
      SharedPtr_alias esft other p s = Inr (h, s') \<longrightarrow> empty_state_inv h) \<and>
   (base_block other = None \<and> p \<noteq> None \<and>
      SharedPtr_alias esft other p s = Inr (h, s') \<longrightarrow> \<not> empty_state_inv h)"
proof (intro conjI impI)
  show "empty_state_inv SharedPtr_default"
    by (simp add: empty_state_inv_def SharedPtr_default_def)
  show "empty_state_inv SharedPtr_nullptr"
    by (simp add: empty_state_inv_def SharedPtr_nullptr_def)
next
  assume "SharedPtr_raw esft p s = Inr (h, s')"
  then show "empty_state_inv h"
    by (auto dest: SharedPtr_raw_handle simp: empty_state_inv_def)
next
  assume "SharedPtr_from_weak w s = Inr (h, s')"
  then show "empty_state_inv h"
    by (auto dest: SharedPtr_from_weak_handle simp: empty_state_inv_def)
next
  assume "Reset this s = Inr (h, s')"
  then show "empty_state_inv h"
    by (auto dest: Reset_handle simp: empty_state_inv_def)
next
  assume "Reset_ptr this p s = Inr (h, s')"
  then show "empty_state_inv h"
    by (auto dest: Reset_ptr_handle simp: empty_state_inv_def)
next
  assume "empty_state_inv other \<and> SharedPtr_copy esft other s = Inr (h, s')"
  then show "empty_state_inv h"
    by (auto dest: SharedPtr_copy_handle)
next
  assume a: "empty_state_inv other \<and> SharedPtr_move esft other s = Inr (h, other', s')"
  then show "empty_state_inv h"
    by (auto dest: SharedPtr_move_handle)
  from a show "empty_state_inv other'"
    by (auto dest: SharedPtr_move_handle simp: empty_state_inv_def)
next
  assume "empty_state_inv this \<and> empty_state_inv other \<and>
      SharedPtr_copy_assign same this other s = Inr (h, s')"
  then show "empty_state_inv h"
    by (auto dest: SharedPtr_copy_assign_handle split: if_splits)
next
  assume a: "empty_state_inv this \<and> empty_state_inv other \<and>
      SharedPtr_move_assign same this other s = Inr (h, other', s')"
  then show "empty_state_inv h"
    by (auto dest: SharedPtr_move_assign_handle split: if_splits)
  from a show "empty_state_inv other'"
    by (auto dest!: SharedPtr_move_assign_handle simp: empty_state_inv_def split: if_splits)
next
  assume a: "empty_state_inv this \<and> empty_state_inv other \<and> Swap this other = (h, other')"
  then show "empty_state_inv h"
    by (auto simp: Swap_def empty_state_inv_def)
  from a show "empty_state_inv other'"
    by (auto simp: Swap_def empty_state_inv_def)
next
  assume "(base_block other \<noteq> None \<or> p = None) \<and>
      SharedPtr_alias esft other p s = Inr (h, s')"
  then show "empty_state_inv h"
    by (auto dest!: SharedPtr_alias_handle simp: empty_state_inv_def)
next
  assume "base_block other = None \<and> p \<noteq> None \<and>
      SharedPtr_alias esft other p s = Inr (h, s')"
  then show "\<not> empty_state_inv h"
    by (auto dest!: SharedPtr_alias_handle simp: empty_state_inv_def)
qed

theorem C5_empty_state_witness:
  "empty_state_inv \<lparr>base_block = Some 0, observed_ptr = Some 0\<rparr> \<and>
   SharedPtr_move False \<lparr>base_block = Some 0, observed_ptr = Some 0\<rparr> (demo_heap 1 0 False) =
     Inr (\<lparr>base_block = Some 0, observed_ptr = Some 0\<rparr>,
          \<lparr>base_block = None, observed_ptr = None\<rparr>, demo_heap 1 0 False) \<and>
   empty_state_inv \<lparr>base_block = None, observed_ptr = None\<rparr> \<and>
   SharedPtr_alias False \<lparr>base_block = Some 0, observed_ptr = Some 0\<rparr> (Some 7)
       (demo_heap 1 0 False) =
     Inr (\<lparr>base_block = Some 0, observed_ptr = Some 7\<rparr>, demo_heap 2 0 False) \<and>
   empty_state_inv \<lparr>base_block = Some 0, observed_ptr = Some 7\<rparr> \<and>
   SharedPtr_alias False \<lparr>base_block = None, observed_ptr = None\<rparr> (Some 7)
       (demo_heap 1 0 False) =
     Inr (\<lparr>base_block = None, observed_ptr = Some 7\<rparr>, demo_heap 1 0 False) \<and>
   \<not> empty_state_inv \<lparr>base_block = None, observed_ptr = Some 7\<rparr>"
  using C5_empty_state [where esft = False and s = "demo_heap 1 0 False"
      and other = "\<lparr>base_block = Some 0, observed_ptr = Some 0\<rparr>"
      and h = "\<lparr>base_block = Some 0, observed_ptr = Some 0\<rparr>"
      and other' = "\<lparr>base_block = None, observed_ptr = None\<rparr>"
      and s' = "demo_heap 1 0 False" and p = None
      and w = null_handle and this = null_handle and same = False]
    C5_empty_state [where esft = False and s = "demo_heap 1 0 False" and p = "Some 7"
      and other = "\<lparr>base_block = Some 0, observed_ptr = Some 0\<rparr>"
      and h = "\<lparr>base_block = Some 0, observed_ptr = Some 7\<rparr>"
      and s' = "demo_heap 2 0 False" and other' = null_handle
      and w = null_handle and this = null_handle and same = False]
    C5_empty_state [where esft = False and s = "demo_heap 1 0 False" and p = "Some 7"
      and other = "\<lparr>base_block = None, observed_ptr = None\<rparr>"
      and h = "\<lparr>base_block = None, observed_ptr = Some 7\<rparr>"
      and s' = "demo_heap 1 0 False" and other' = null_handle
      and w = null_handle and this = null_handle and same = False]
  by (simp add: demo_heap_def set_block_def SharedPtr_move_def
      SharedPtr_alias_def IncreaseStrongCounter_def empty_state_inv_def)

text \<open>
  C5 as stated fails for the aliasing constructor applied to a default-constructed handle
  and a non-null pointer: the new handle has no control block and observes the pointer.
\<close>

theorem C5_alias_of_empty_counterexample:
  "SharedPtr_alias False SharedPtr_default (Some 0) (demo_heap 1 0 False) =
     Inr (\<lparr>base_block = None, observed_ptr = Some 0\<rparr>, demo_heap 1 0 False) \<and>
   \<not> empty_state_inv \<lparr>base_block = None, observed_ptr = Some 0\<rparr>"
  by (simp add: SharedPtr_alias_def SharedPtr_default_def empty_state_inv_def)

text \<open>
  C6. An object whose class has the mixin and that no handle ever bound has a
  default-constructed \<^verbatim>\<open>weak_this_\<close>; destroying it calls \<^verbatim>\<open>BruteDecreaseWeakCounter\<close>
  through the null \<^verbatim>\<open>base_block_\<close>.
\<close>

theorem C6_unbound_teardown:
  "delete_T (fst (new_T True 7 empty_heap)) (snd (new_T True 7 empty_heap)) = Inl NullDeref"
  by (simp add: delete_T_def new_T_def construct_T_def empty_heap_def destroy_T_def
      EnableSharedFromThis_dtor_def WeakPtr_default_def null_handle_def)

text \<open>
  C7. Self-observation round trip. For an object whose \<^verbatim>\<open>weak_this_\<close> is bound to a live block
  and observes the object itself, as \<^verbatim>\<open>InitWeakThis\<close> leaves it, with the block's strong
  counter \<open>n\<close>, \<open>1 \<le> n < 2\<^sup>6\<^sup>4 - 1\<close>, and any handle \<open>h\<close> on that block:
  \<^verbatim>\<open>SharedFromThis\<close> gives a handle on the same block, after which \<^verbatim>\<open>UseCount\<close> is \<open>n + 1\<close> on
  both handles; destroying the derived handle gives back the heap as it was, with
  \<^verbatim>\<open>UseCount\<close> \<open>n\<close>. For an object that was never bound, \<^verbatim>\<open>SharedFromThis\<close> gives an empty
  handle; \<^verbatim>\<open>WeakFromThis\<close> succeeds in both cases.
\<close>

theorem C7_self_observation_round_trip:
  "(objects s a = Some ob \<and> weak_this ob = Some w \<and> base_block w = Some b \<and>
      observed_ptr w = Some a \<and>
      blocks s b = Some cb \<and> base_block h = Some b \<and>
      1 \<le> unat (strong_counter cb) \<and> unat (strong_counter cb) < 2 ^ 64 - 1 \<longrightarrow>
    SharedFromThis a s =
      Inr (\<lparr>base_block = Some b, observed_ptr = observed_ptr w\<rparr>,
           set_block b (cb\<lparr>strong_counter := strong_counter cb + 1\<rparr>) s) \<and>
    UseCount h (set_block b (cb\<lparr>strong_counter := strong_counter cb + 1\<rparr>) s) =
      Inr (strong_counter cb + 1) \<and>
    UseCount \<lparr>base_block = Some b, observed_ptr = observed_ptr w\<rparr>
        (set_block b (cb\<lparr>strong_counter := strong_counter cb + 1\<rparr>) s) =
      Inr (strong_counter cb + 1) \<and>
    unat (strong_counter cb + 1) = unat (strong_counter cb) + 1 \<and>
    SharedPtr_dtor \<lparr>base_block = Some b, observed_ptr = observed_ptr w\<rparr>
        (set_block b (cb\<lparr>strong_counter := strong_counter cb + 1\<rparr>) s) = Inr s \<and>
    UseCount h s = Inr (strong_counter cb)) \<and>
   (objects s a = Some ob \<and> weak_this ob = Some w \<and> base_block w = None \<longrightarrow>
      SharedFromThis a s = Inr (null_handle, s) \<and> WeakFromThis a s = Inr (w, s)) \<and>
   (objects s a = Some ob \<and> weak_this ob = Some w \<and> base_block w = Some b \<and>
      blocks s b = Some cb \<longrightarrow>
      WeakFromThis a s =
        Inr (w, set_block b (cb\<lparr>weak_counter := weak_counter cb + 1\<rparr>) s))"
proof (intro conjI impI)
  assume h: "objects s a = Some ob \<and> weak_this ob = Some w \<and> base_block w = Some b \<and>
      observed_ptr w = Some a \<and>
      blocks s b = Some cb \<and> base_block h = Some b \<and>
      1 \<le> unat (strong_counter cb) \<and> unat (strong_counter cb) < 2 ^ 64 - 1"
  then have nz: "strong_counter cb \<noteq> 0"
    by auto
  let ?s1 = "set_block b (cb\<lparr>strong_counter := strong_counter cb + 1\<rparr>) s"
  let ?d = "\<lparr>base_block = Some b, observed_ptr = observed_ptr w\<rparr>"
  show n1: "unat (strong_counter cb + 1) = unat (strong_counter cb) + 1"
    using h by (simp add: unat_succ_word)
  then have nz1: "strong_counter cb + 1 \<noteq> 0"
    by (metis Suc_eq_plus1 nat.simps(3) unat_0)
  have "Lock True w s = Inr (\<lparr>base_block = Some b, observed_ptr = Some a\<rparr>, ?s1)"
    using h nz nz1 by (intro Lock_with_mixin [where ob = ob]) simp_all
  then show "SharedFromThis a s = Inr (?d, ?s1)"
    using h by (simp add: SharedFromThis_def)
  show "UseCount h ?s1 = Inr (strong_counter cb + 1)"
    using h by (simp add: UseCount_def GetStrongCounter_def)
  show "UseCount ?d ?s1 = Inr (strong_counter cb + 1)"
    by (simp add: UseCount_def GetStrongCounter_def)
  have "strong_counter cb + 1 \<noteq> 1"
    using n1 h by auto
  then show "SharedPtr_dtor ?d ?s1 = Inr s"
    using h by (simp add: SharedPtr_dtor_def DecreaseStrongCounter_shared set_block_same)
  show "UseCount h s = Inr (strong_counter cb)"
    using h by (simp add: UseCount_def GetStrongCounter_def)
next
  assume "objects s a = Some ob \<and> weak_this ob = Some w \<and> base_block w = None"
  then show "SharedFromThis a s = Inr (null_handle, s)"
    by (simp add: SharedFromThis_def Lock_expired SharedPtr_default_def null_handle_def)
next
  assume "objects s a = Some ob \<and> weak_this ob = Some w \<and> base_block w = None"
  then show "WeakFromThis a s = Inr (w, s)"
    by (simp add: WeakFromThis_def WeakPtr_copy_def)
next
  assume "objects s a = Some ob \<and> weak_this ob = Some w \<and> base_block w = Some b \<and>
      blocks s b = Some cb"
  then show "WeakFromThis a s =
        Inr (w, set_block b (cb\<lparr>weak_counter := weak_counter cb + 1\<rparr>) s)"
    by (simp add: WeakFromThis_def WeakPtr_copy_def IncreaseWeakCounter_def)
qed

theorem C7_self_observation_round_trip_witness:
  "objects (demo_heap 1 1 True) 0 =
     Some \<lparr>payload = 5, weak_this = Some \<lparr>base_block = Some 0, observed_ptr = Some 0\<rparr>\<rparr> \<and>
   SharedFromThis 0 (demo_heap 1 1 True) =
     Inr (\<lparr>base_block = Some 0, observed_ptr = Some 0\<rparr>, demo_heap 2 1 True) \<and>
   UseCount \<lparr>base_block = Some 0, observed_ptr = Some 0\<rparr> (demo_heap 2 1 True) = Inr 2 \<and>
   SharedPtr_dtor \<lparr>base_block = Some 0, observed_ptr = Some 0\<rparr> (demo_heap 2 1 True) =
     Inr (demo_heap 1 1 True) \<and>
   UseCount \<lparr>base_block = Some 0, observed_ptr = Some 0\<rparr> (demo_heap 1 1 True) = Inr 1"
  using C7_self_observation_round_trip [where s = "demo_heap 1 1 True" and a = 0 and b = 0
      and ob = "\<lparr>payload = 5, weak_this = Some \<lparr>base_block = Some 0, observed_ptr = Some 0\<rparr>\<rparr>"
      and w = "\<lparr>base_block = Some 0, observed_ptr = Some 0\<rparr>"
      and cb = "\<lparr>kind = PtrControlBlock, strong_counter = 1, weak_counter = 1,
                 control_ptr = Some 0\<rparr>"
      and h = "\<lparr>base_block = Some 0, observed_ptr = Some 0\<rparr>"]
  by (simp add: demo_heap_def set_block_def)

text \<open>
  C8. Construction equivalence. Starting from the same heap, \<^verbatim>\<open>SharedPtr<T>(new T(v))\<close> and
  \<^verbatim>\<open>MakeShared<T>(v)\<close> both succeed, and the first handle has \<^verbatim>\<open>UseCount()\<close> one and reads
  \<open>v\<close>. After every prefix of every program of the group, run from the one state and from
  the other, the observations agree: \<^verbatim>\<open>UseCount()\<close>, the value read through each live handle,
  each boolean test, and the number of times the object's destructor has run. The object's
  address is fresh: no destructor has run at it before.
\<close>

theorem C8_construction_equivalence:
  assumes "destroy_count (next_object s0) (events s0) = 0"
  shows "\<exists>st1 st2. init_raw esft v s0 = Inr st1 \<and> init_make esft v s0 = Inr st2 \<and>
           observe (next_object s0) st1 = ([Some (Inr 1, Inr v, True)], 0) \<and>
           (\<forall>ops. prog_ok esft ops st1 \<and> length ops + 1 < 2 ^ 64 \<longrightarrow>
              (\<forall>k \<le> length ops.
                 \<exists>r1 r2. run esft (take k ops) st1 = Inr r1 \<and>
                   run esft (take k ops) st2 = Inr r2 \<and>
                   observe (next_object s0) r1 = observe (next_object s0) r2))"
proof -
  let ?h = "\<lparr>base_block = Some (next_block s0), observed_ptr = Some (next_object s0)\<rparr>"
  from init_raw_group [OF assms, of esft v] obtain s1 where
    s1: "init_raw esft v s0 = Inr ([Some ?h], s1)"
    "handle_group esft (next_block s0) (next_object s0) ([Some ?h], s1)"
    "objects s1 = (objects s0)(next_object s0 \<mapsto>
       \<lparr>payload = v, weak_this = (if esft then Some ?h else None)\<rparr>)"
    by blast
  from init_make_group [OF assms, of esft v] obtain s2 where
    s2: "init_make esft v s0 = Inr ([Some ?h], s2)"
    "handle_group esft (next_block s0) (next_object s0) ([Some ?h], s2)"
    "objects s2 = (objects s0)(next_object s0 \<mapsto>
       \<lparr>payload = v, weak_this = (if esft then Some ?h else None)\<rparr>)"
    by blast
  have eq: "objects s1 = objects s2"
    using s1(3) s2(3) by simp
  obtain n where n: "UseCount ?h s1 = Inr n" "unat n = 1"
    using handle_group_UseCount [OF s1(2), of ?h] by auto
  then have "n = 1"
    by (metis unat_1 word_unat_eq_iff)
  then have obs: "observe (next_object s0) ([Some ?h], s1) = ([Some (Inr 1, Inr v, True)], 0)"
    using n(1) s1(3) handle_group_destroy_count [OF s1(2)]
    by (simp add: observe_def deref_def operator_bool_def)
  have "\<exists>r1 r2. run esft (take k ops) ([Some ?h], s1) = Inr r1 \<and>
      run esft (take k ops) ([Some ?h], s2) = Inr r2 \<and>
      observe (next_object s0) r1 = observe (next_object s0) r2"
    if "prog_ok esft ops ([Some ?h], s1)" "length ops + 1 < 2 ^ 64" "k \<le> length ops"
    for ops k
  proof -
    have len: "length [Some ?h] + length (take k ops) < 2 ^ 64"
      using that(2,3) by simp
    from run_group_pair [OF s1(2) s2(2) eq prog_ok_take [OF that(1)] len]
    obtain hs' s' t' where "run esft (take k ops) ([Some ?h], s1) = Inr (hs', s')"
      "run esft (take k ops) ([Some ?h], s2) = Inr (hs', t')"
      "handle_group esft (next_block s0) (next_object s0) (hs', s')"
      "handle_group esft (next_block s0) (next_object s0) (hs', t')"
      "objects s' = objects t'"
      by blast
    then show ?thesis
      using observe_group by blast
  qed
  then show ?thesis
    using s1(1) s2(1) obs by blast
qed

theorem C8_construction_equivalence_witness:
  "destroy_count (next_object empty_heap) (events empty_heap) = 0 \<and>
   map_sum id (observe 0) (init_raw True 5 empty_heap) =
     Inr ([Some (Inr 1, Inr 5, True)], 0) \<and>
   map_sum id (observe 0) (init_make True 5 empty_heap) =
     Inr ([Some (Inr 1, Inr 5, True)], 0) \<and>
   map_sum id (observe 0)
     (bindE (init_raw True 5 empty_heap) (run True [Copy 0, Destroy 0])) =
     Inr ([None, Some (Inr 1, Inr 5, True)], 0) \<and>
   map_sum id (observe 0)
     (bindE (init_make True 5 empty_heap) (run True [Copy 0, Destroy 0])) =
     Inr ([None, Some (Inr 1, Inr 5, True)], 0) \<and>
   map_sum id (observe 0)
     (bindE (init_raw True 5 empty_heap) (run True [Copy 0, Destroy 0, ResetOp 1])) =
     Inr ([None, Some (Inr 0, Inl NullDeref, False)], 1) \<and>
   map_sum id (observe 0)
     (bindE (init_make True 5 empty_heap) (run True [Copy 0, Destroy 0, ResetOp 1])) =
     Inr ([None, Some (Inr 0, Inl NullDeref, False)], 1) \<and>
   map_sum id (events \<circ> snd)
     (bindE (init_raw True 5 empty_heap) (run True [Copy 0, Destroy 0, ResetOp 1])) =
     Inr [ObjectDeleted 0, BlockDeleted 0] \<and>
   map_sum id (events \<circ> snd)
     (bindE (init_make True 5 empty_heap) (run True [Copy 0, Destroy 0, ResetOp 1])) =
     Inr [ObjectDestructed 0, BlockDeleted 0]"
  using C8_construction_equivalence [where ?s0.0 = empty_heap and esft = True and v = 5]
  by (simp add: eval_defs)

text \<open>
  C9. With a handle type that has the mixin, the aliasing constructor applied to a
  non-empty handle and a null pointer adds one to the strong counter and then calls
  \<^verbatim>\<open>InitWeakThis(nullptr)\<close>:
  \<^verbatim>\<open>SharedPtr<T> x0(new T); SharedPtr<T> x1(x0, static_cast<T*>(nullptr));\<close> fails. With a
  handle type without the mixin it gives a handle on the same block whose \<^verbatim>\<open>Get()\<close> is null,
  and \<^verbatim>\<open>UseCount()\<close> becomes two.
\<close>

theorem C9_alias_to_null_with_mixin:
  "bindE (init_raw True 5 empty_heap) (run True [Alias 0 None]) = Inl NullDeref \<and>
   SharedPtr_alias True \<lparr>base_block = Some 0, observed_ptr = Some 0\<rparr> None
     (demo_heap 1 1 True) = Inl NullDeref \<and>
   bindE (init_raw False 5 empty_heap) (run False [Alias 0 None]) =
     Inr ([Some \<lparr>base_block = Some 0, observed_ptr = Some 0\<rparr>,
           Some \<lparr>base_block = Some 0, observed_ptr = None\<rparr>], demo_heap 2 0 False) \<and>
   Get \<lparr>base_block = Some 0, observed_ptr = None\<rparr> = None \<and>
   UseCount \<lparr>base_block = Some 0, observed_ptr = None\<rparr> (demo_heap 2 0 False) = Inr 2"
  by (simp add: eval_defs)

text \<open>
  C10. With a pointer type that has the mixin, the raw-pointer constructor applied to a null
  pointer allocates the block and then calls \<^verbatim>\<open>InitWeakThis(nullptr)\<close>, which reaches
  \<^verbatim>\<open>weak_this_\<close> through the null pointer.
\<close>

theorem C10_null_with_mixin:
  "SharedPtr_raw True None empty_heap = Inl NullDeref"
  by (simp add: SharedPtr_raw_def new_block_def InitWeakThis_def WeakPtr_copy_def
      IncreaseWeakCounter_def empty_heap_def)

end
